theory Spec2Isabelle
  imports Main "HOL-Library.Word"
begin

unbundle bit_operations_syntax

section \<open>Data model of \<open>orbit/pkg/table/user_exec/exec.go\<close>\<close>

text \<open>
  A row is Go's \<open>map[string]string\<close>; a Go \<open>error\<close> is represented by its message and
  \<open>nil\<close> by \<open>None\<close>. A Go function returning \<open>(value, error)\<close> returns a pair here, so
  that "an error and no value" is a statement about the pair and not a fact of the type.
  The nil slice and the empty slice are both \<open>[]\<close>. \<open>time.Duration\<close> is a 64-bit count of
  nanoseconds, and Go's \<open>int\<close> is 64-bit on darwin, the platform the file is written for.
\<close>

type_synonym row = "string \<rightharpoonup> string"
type_synonym err = "string option"

text \<open>
  A value of type \<open>map[string]string\<close> may be the nil map: the decoder stores one for a JSON
  \<open>null\<close> element. Reading a nil map is harmless, writing to it panics. \<open>None\<close> is the nil
  map. A function that panics returns nothing: its outcome is \<open>Panics\<close> with the message.
\<close>

type_synonym gomap = "row option"

datatype 'a outcome = Returns 'a | Panics string

text \<open>\<open>exec.Cmd\<close> as the source fills it: the program, its arguments, the working
  directory and the deadline of the context it was built with (nanoseconds).\<close>

record Cmd =
  Path :: string
  Args :: "string list"
  Dir :: string
  Deadline :: "64 word"

text \<open>What the function does to the outside world, in program order.\<close>

datatype event =
    WithTimeout "64 word"
  | Cancel
  | UserLookup string
  | MkdirTemp string string "string option"
  | RemoveAll string
  | Chmod string "32 word"
  | Run Cmd
  | LogInfo string

text \<open>The world the code acts on: the temporary directories that exist, each with its
  permission mode, and the trace of calls made so far.\<close>

record world =
  fs :: "string \<rightharpoonup> 32 word"
  events :: "event list"

text \<open>The types of osquery-go's \<open>table\<close> package that the source uses (the package is
  a dependency; only the fields read here are kept).\<close>

record Constraint =
  Operator :: nat
  Expression :: string

record ConstraintList =
  Affinity :: string
  Constraints :: "Constraint list"

type_synonym QueryContext = "string \<rightharpoonup> ConstraintList"

record ColumnDefinition =
  Name :: string
  Type :: string

text \<open>
  The behaviour of everything outside the file, as parameters: the operating system calls,
  the subprocess, the JSON decoder and the constraint helper. Each may depend on the whole
  world, so two calls with the same arguments can answer differently. \<open>json_Unmarshal\<close>
  returns the destination slice as the decoder left it together with the error, since Go's
  decoder may fill part of the destination before it fails.
\<close>

record env =
  user_Lookup :: "string \<Rightarrow> world \<Rightarrow> string + string"
  os_MkdirTemp :: "string \<Rightarrow> string \<Rightarrow> world \<Rightarrow> string + string"
  os_Chmod :: "string \<Rightarrow> 32 word \<Rightarrow> world \<Rightarrow> err"
  cmd_Run :: "Cmd \<Rightarrow> world \<Rightarrow> (string \<times> string) + string"
  json_Unmarshal :: "string \<Rightarrow> gomap list \<times> err"
  get_constraints :: "QueryContext \<Rightarrow> string \<Rightarrow> string \<Rightarrow> string list"

record Table =
  osqueryd :: string
  query :: string
  tablename :: string

record Plugin =
  plugin_name :: string
  plugin_columns :: "ColumnDefinition list"
  plugin_generate :: "QueryContext \<Rightarrow> world \<Rightarrow> (row list \<times> err) outcome \<times> world"

section \<open>The calls into the operating system\<close>

definition emit :: "event \<Rightarrow> world \<Rightarrow> world" where
  "emit ev w = w\<lparr>events := events w @ [ev]\<rparr>"

text \<open>Octal permission modes: \<open>mode u g w\<close> is Go's \<open>0ougw\<close>.\<close>

definition mode :: "nat \<Rightarrow> nat \<Rightarrow> nat \<Rightarrow> 32 word" where
  "mode u g w = of_nat (u * 64 + g * 8 + w)"

text \<open>\<open>os.MkdirTemp(dir, pattern)\<close>: on success the new directory exists with mode 0700.\<close>

definition MkdirTemp_call :: "env \<Rightarrow> string \<Rightarrow> string \<Rightarrow> world \<Rightarrow> (string + string) \<times> world" where
  "MkdirTemp_call e parent pattern w =
     (case os_MkdirTemp e parent pattern w of
        Inl msg \<Rightarrow> (Inl msg, emit (MkdirTemp parent pattern None) w)
      | Inr dir \<Rightarrow> (Inr dir, emit (MkdirTemp parent pattern (Some dir)) (w\<lparr>fs := (fs w)(dir \<mapsto> mode 7 0 0)\<rparr>)))"

text \<open>\<open>os.Chmod(name, mode)\<close>: on success the directory has the new mode.\<close>

definition Chmod_call :: "env \<Rightarrow> string \<Rightarrow> 32 word \<Rightarrow> world \<Rightarrow> err \<times> world" where
  "Chmod_call e name m w =
     (case os_Chmod e name m w of
        Some msg \<Rightarrow> (Some msg, emit (Chmod name m) w)
      | None \<Rightarrow> (None, emit (Chmod name m) (w\<lparr>fs := (fs w)(name \<mapsto> m)\<rparr>)))"

text \<open>\<open>os.RemoveAll(path)\<close>: the directory is gone afterwards. The source discards the
  call's result.\<close>

definition RemoveAll_call :: "string \<Rightarrow> world \<Rightarrow> world" where
  "RemoveAll_call path w = emit (RemoveAll path) (w\<lparr>fs := (fs w)(path := None)\<rparr>)"

section \<open>ExecOsqueryLaunchctl (lines 21 to 65)\<close>

text \<open>The two deferred calls run in reverse order of registration: \<open>os.RemoveAll(dir)\<close>
  first, \<open>cancel()\<close> last. Before the directory exists only \<open>cancel()\<close> is pending. The
  caller's context is not a parameter here: its cancellation can only make \<open>cmd.Run\<close> fail,
  which \<open>cmd_Run\<close> may do in any case.\<close>

definition ExecOsqueryLaunchctl ::
  "env \<Rightarrow> 64 word \<Rightarrow> string \<Rightarrow> string \<Rightarrow> string \<Rightarrow> world \<Rightarrow> (string \<times> err) \<times> world" where
  "ExecOsqueryLaunchctl e timeoutSeconds username osqueryPath qry w0 =
     (let deadline = timeoutSeconds * 1000000000;
          w1 = emit (WithTimeout deadline) w0;
          looked = user_Lookup e username w1;
          w2 = emit (UserLookup username) w1
      in case looked of
           Inl msg \<Rightarrow>
             (([], Some (''looking up username '' @ username @ '': '' @ msg)), emit Cancel w2)
         | Inr uid \<Rightarrow>
             (let cmd = \<lparr>Path = ''launchctl'',
                         Args = [''asuser'', uid, osqueryPath,
                                 ''--config_path'', ''/dev/null'',
                                 ''--disable_events'',
                                 ''--disable_database'',
                                 ''--disable_audit'',
                                 ''--ephemeral'',
                                 ''-S'',
                                 ''--json'',
                                 qry],
                         Dir = [],
                         Deadline = deadline\<rparr>
              in case MkdirTemp_call e [] ''osq-launchctl'' w2 of
                   (Inl msg, w3) \<Rightarrow> (([], Some (''mktemp: '' @ msg)), emit Cancel w3)
                 | (Inr dir, w3) \<Rightarrow>
                     (case Chmod_call e dir (mode 7 5 5) w3 of
                        (Some msg, w4) \<Rightarrow>
                          (([], Some (''chmod: '' @ msg)), emit Cancel (RemoveAll_call dir w4))
                      | (None, w4) \<Rightarrow>
                          (let cmd = cmd\<lparr>Dir := dir\<rparr>;
                               ran = cmd_Run e cmd w4;
                               w5 = emit (Run cmd) w4
                           in case ran of
                                Inl (stderr, msg) \<Rightarrow>
                                  (([], Some (''running osquery. Got: '' @ [CHR 0x27] @ stderr
                                              @ [CHR 0x27] @ '': '' @ msg)),
                                   emit Cancel (RemoveAll_call dir w5))
                              | Inr stdout \<Rightarrow>
                                  ((stdout, None), emit Cancel (RemoveAll_call dir w5))))))"

section \<open>ExecOsqueryLaunchctlParsed (lines 67 to 81)\<close>

definition ExecOsqueryLaunchctlParsed ::
  "env \<Rightarrow> 64 word \<Rightarrow> string \<Rightarrow> string \<Rightarrow> string \<Rightarrow> world \<Rightarrow> (gomap list \<times> err) \<times> world" where
  "ExecOsqueryLaunchctlParsed e timeoutSeconds username osqueryPath qry w0 =
     (case ExecOsqueryLaunchctl e timeoutSeconds username osqueryPath qry w0 of
        ((outBytes, Some msg), w1) \<Rightarrow> (([], Some msg), w1)
      | ((outBytes, None), w1) \<Rightarrow>
          (case json_Unmarshal e outBytes of
             (osqueryResults, Some msg) \<Rightarrow>
               (([], Some (''unmarshalling json: '' @ msg)),
                emit (LogInfo ''error unmarshalling json'') w1)
           | (osqueryResults, None) \<Rightarrow> ((osqueryResults, None), w1)))"

section \<open>The table (lines 83 to 144)\<close>

definition allowedUsernameCharacters :: string where
  "allowedUsernameCharacters =
     ''abcdefghijklmnopqrstuvwxyzABCDEFGHIJKLMNOPQRSTUVWXYZ0123456789_-. ''"

definition TextColumn :: "string \<Rightarrow> ColumnDefinition" where
  "TextColumn name = \<lparr>Name = name, Type = ''TEXT''\<rparr>"

definition NewPlugin ::
  "string \<Rightarrow> ColumnDefinition list \<Rightarrow>
   (QueryContext \<Rightarrow> world \<Rightarrow> (row list \<times> err) outcome \<times> world) \<Rightarrow> Plugin" where
  "NewPlugin name columns gen =
     \<lparr>plugin_name = name, plugin_columns = columns, plugin_generate = gen\<rparr>"

text \<open>
  The inner loop of \<open>generate\<close> (lines 138 to 141): each row gets its \<open>user\<close> key set and
  is appended to \<open>results\<close>. The assignment on line 139 panics when the row is the nil map,
  and the rows decoded so far are lost with the call. Every element of \<open>results\<close> is a map
  that line 139 has written to, so \<open>results\<close> holds maps that are not nil.
\<close>

fun tag_rows :: "string \<Rightarrow> gomap list \<Rightarrow> row list \<Rightarrow> row list outcome" where
  "tag_rows user [] results = Returns results"
| "tag_rows user (None # osqueryResults) results = Panics ''assignment to entry in nil map''"
| "tag_rows user (Some row # osqueryResults) results =
     tag_rows user osqueryResults (results @ [row(''user'' \<mapsto> user)])"

text \<open>The outer loop of \<open>generate\<close> (lines 132 to 142). Nothing in the file recovers from a
  panic, so a panic of the inner loop ends the call.\<close>

fun generate_loop ::
  "env \<Rightarrow> Table \<Rightarrow> string list \<Rightarrow> row list \<Rightarrow> world \<Rightarrow> row list outcome \<times> world" where
  "generate_loop e t [] results w = (Returns results, w)"
| "generate_loop e t (user # users) results w =
     (case ExecOsqueryLaunchctlParsed e 5 user (osqueryd t) (query t) w of
        ((osqueryResults, Some msg), w') \<Rightarrow> generate_loop e t users results w'
      | ((osqueryResults, None), w') \<Rightarrow>
          (case tag_rows user osqueryResults results of
             Panics p \<Rightarrow> (Panics p, w')
           | Returns results' \<Rightarrow> generate_loop e t users results' w'))"

definition generate ::
  "env \<Rightarrow> Table \<Rightarrow> QueryContext \<Rightarrow> world \<Rightarrow> (row list \<times> err) outcome \<times> world" where
  "generate e t queryContext w =
     (let users = get_constraints e queryContext ''user'' allowedUsernameCharacters
      in if length users = 0
         then (Returns ([], Some (''The '' @ tablename t @ '' table requires a user'')), w)
         else (case generate_loop e t users [] w of
                 (Panics p, w') \<Rightarrow> (Panics p, w')
               | (Returns results, w') \<Rightarrow> (Returns (results, None), w')))"

definition TablePlugin ::
  "env \<Rightarrow> string \<Rightarrow> string \<Rightarrow> string \<Rightarrow> ColumnDefinition list \<Rightarrow> Plugin" where
  "TablePlugin e tablename' osqueryd' osqueryQuery columns =
     (let columns = columns @ [TextColumn ''user''];
          t = \<lparr>osqueryd = osqueryd', query = osqueryQuery, tablename = tablename'\<rparr>
      in NewPlugin (tablename t) columns (generate e t))"

section \<open>The constraint helper\<close>

text \<open>
  Modelled from the spec: \<open>tablehelpers.GetConstraints\<close> with the option
  \<open>WithAllowedCharacters\<close> is imported from another module and its code is not part of the
  sources. The specification says that it extracts all values constrained on the given
  column, keeps those made only of characters of the allowlist, drops the others silently,
  and yields a set of usernames (so each value once).
\<close>

definition GetConstraints :: "QueryContext \<Rightarrow> string \<Rightarrow> string \<Rightarrow> string list" where
  "GetConstraints queryContext columnName allowed =
     (case queryContext columnName of
        None \<Rightarrow> []
      | Some q \<Rightarrow>
          remdups (filter (\<lambda>v. list_all (\<lambda>c. c \<in> set allowed) v)
                          (map Expression (Constraints q))))"

section \<open>A concrete environment\<close>

text \<open>
  Two accounts exist, \<open>alice\<close> (uid 501) and \<open>bob\<close> (uid 502). The subprocess prints one
  record for uid 501, which already carries a \<open>user\<close> key, and is killed at its deadline for
  uid 502. The decoder knows that one output and the empty array, and rejects the rest.
\<close>

definition demo_stdout :: string where
  \<open>demo_stdout = ''[{"key":"v","user":"root"}]''\<close>

definition demo_env :: env where
  "demo_env =
     \<lparr>user_Lookup = (\<lambda>u w. if u = ''alice'' then Inr ''501''
                            else if u = ''bob'' then Inr ''502''
                            else Inl (''user: unknown user '' @ u)),
      os_MkdirTemp = (\<lambda>parent pattern w. Inr (''/tmp/'' @ pattern @ ''42'')),
      os_Chmod = (\<lambda>name m w. None),
      cmd_Run = (\<lambda>c w. if take 2 (Args c) = [''asuser'', ''501''] then Inr demo_stdout
                        else Inl ([], ''signal: killed'')),
      json_Unmarshal = (\<lambda>out. if out = demo_stdout
                               then ([Some [''key'' \<mapsto> ''v'', ''user'' \<mapsto> ''root'']], None)
                               else if out = ''[]'' then ([], None)
                               else ([], Some ''invalid character'')),
      get_constraints = GetConstraints\<rparr>"

definition demo_table :: Table where
  "demo_table = \<lparr>osqueryd = ''/usr/local/bin/osqueryd'',
                 query = ''select * from screenlock'',
                 tablename = ''screenlock''\<rparr>"

definition user_eq :: "string \<Rightarrow> Constraint" where
  "user_eq v = \<lparr>Operator = 2, Expression = v\<rparr>"

definition demo_query :: "string list \<Rightarrow> QueryContext" where
  "demo_query vs = [''user'' \<mapsto> \<lparr>Affinity = ''TEXT'', Constraints = map user_eq vs\<rparr>]"

definition world0 :: world where
  "world0 = \<lparr>fs = Map.empty, events = []\<rparr>"

text \<open>The same machine with a full disk: no temporary directory can be created.\<close>

definition full_disk_env :: env where
  "full_disk_env = demo_env\<lparr>os_MkdirTemp := (\<lambda>parent pattern w. Inl ''no space left on device'')\<rparr>"

text \<open>A decoder that fails after it has filled one row of the destination.\<close>

definition partial_decoder_env :: env where
  "partial_decoder_env =
     demo_env\<lparr>json_Unmarshal :=
       (\<lambda>out. ([Some [''key'' \<mapsto> ''v'']],
               Some ''cannot unmarshal number into Go value of type string''))\<rparr>"

text \<open>A machine on which the temporary directory cannot be created for \<open>bob\<close>'s
  invocation only (the call that directly follows his identity lookup).\<close>

definition flaky_disk_env :: env where
  "flaky_disk_env =
     demo_env\<lparr>os_MkdirTemp :=
       (\<lambda>parent pattern w.
          if events w \<noteq> [] \<and> last (events w) = UserLookup ''bob''
          then Inl ''no space left on device''
          else Inr (''/tmp/'' @ pattern @ ''42''))\<rparr>"

text \<open>A subprocess that prints an array holding one \<open>null\<close>, which decodes without an
  error to one nil map.\<close>

definition null_record_env :: env where
  "null_record_env =
     demo_env\<lparr>cmd_Run := (\<lambda>c w. Inr ''[null]''),
              json_Unmarshal := (\<lambda>out. if out = ''[null]'' then ([None], None)
                                       else ([], Some ''invalid character''))\<rparr>"



section \<open>Vocabulary of the properties\<close>

text \<open>The events a call added to the trace.\<close>

definition new_events :: "world \<Rightarrow> world \<Rightarrow> event list" where
  "new_events w w' = drop (length (events w)) (events w')"

text \<open>The command as it stands when it is run, with the working directory set.\<close>

definition launchctl_cmd :: "string \<Rightarrow> string \<Rightarrow> string \<Rightarrow> string \<Rightarrow> 64 word \<Rightarrow> Cmd" where
  "launchctl_cmd uid osqueryPath qry dir deadline =
     \<lparr>Path = ''launchctl'',
      Args = [''asuser'', uid, osqueryPath, ''--config_path'', ''/dev/null'',
              ''--disable_events'', ''--disable_database'', ''--disable_audit'',
              ''--ephemeral'', ''-S'', ''--json'', qry],
      Dir = dir,
      Deadline = deadline\<rparr>"

text \<open>The five ways through \<open>ExecOsqueryLaunchctl\<close>, each with the events it adds and its
  effect on the temporary directories.\<close>

datatype path = LookupFailed | MkdirFailed | ChmodFailed string | RunFailed string string | Ran string string

fun path_events :: "64 word \<Rightarrow> string \<Rightarrow> string \<Rightarrow> string \<Rightarrow> path \<Rightarrow> event list" where
  "path_events D u p q LookupFailed = [WithTimeout D, UserLookup u, Cancel]"
| "path_events D u p q MkdirFailed =
     [WithTimeout D, UserLookup u, MkdirTemp [] ''osq-launchctl'' None, Cancel]"
| "path_events D u p q (ChmodFailed d) =
     [WithTimeout D, UserLookup u, MkdirTemp [] ''osq-launchctl'' (Some d),
      Chmod d (mode 7 5 5), RemoveAll d, Cancel]"
| "path_events D u p q (RunFailed d uid) =
     [WithTimeout D, UserLookup u, MkdirTemp [] ''osq-launchctl'' (Some d),
      Chmod d (mode 7 5 5), Run (launchctl_cmd uid p q d D), RemoveAll d, Cancel]"
| "path_events D u p q (Ran d uid) =
     [WithTimeout D, UserLookup u, MkdirTemp [] ''osq-launchctl'' (Some d),
      Chmod d (mode 7 5 5), Run (launchctl_cmd uid p q d D), RemoveAll d, Cancel]"

fun path_fs :: "path \<Rightarrow> (string \<rightharpoonup> 32 word) \<Rightarrow> (string \<rightharpoonup> 32 word)" where
  "path_fs LookupFailed f = f"
| "path_fs MkdirFailed f = f"
| "path_fs (ChmodFailed d) f = f(d := None)"
| "path_fs (RunFailed d uid) f = f(d := None)"
| "path_fs (Ran d uid) f = f(d := None)"

fun path_ok :: "path \<Rightarrow> bool" where
  "path_ok (Ran d uid) = True"
| "path_ok _ = False"

fun path_uid :: "path \<Rightarrow> string option" where
  "path_uid (RunFailed d uid) = Some uid"
| "path_uid (Ran d uid) = Some uid"
| "path_uid _ = None"

text \<open>The durations of the contexts started in a trace, in order.\<close>

fun timeouts :: "event list \<Rightarrow> 64 word list" where
  "timeouts [] = []"
| "timeouts (WithTimeout d # evs) = d # timeouts evs"
| "timeouts (ev # evs) = timeouts evs"

text \<open>An event of the loop's trace belongs to an invocation for one of the usernames.\<close>

definition invocation_event :: "env \<Rightarrow> Table \<Rightarrow> string list \<Rightarrow> event \<Rightarrow> bool" where
  "invocation_event e t users ev \<longleftrightarrow>
     ev = LogInfo ''error unmarshalling json'' \<or>
     (\<exists>u\<in>set users. \<exists>pa.
        ev \<in> set (path_events 5000000000 u (osqueryd t) (query t) pa) \<and>
        (\<forall>uid. path_uid pa = Some uid \<longrightarrow> (\<exists>wl. user_Lookup e u wl = Inr uid)))"

text \<open>The allowlist in the specification's words: ASCII lower-case and upper-case letters,
  digits, underscore, hyphen, period and space. Go tests runes; a rune outside ASCII is
  encoded by bytes above 127, none of which is in the list, so testing bytes agrees.\<close>

definition allowed_by_spec :: "char \<Rightarrow> bool" where
  "allowed_by_spec c \<longleftrightarrow>
     (97 \<le> (of_char c :: nat) \<and> (of_char c :: nat) \<le> 122) \<or>
     (65 \<le> (of_char c :: nat) \<and> (of_char c :: nat) \<le> 90) \<or>
     (48 \<le> (of_char c :: nat) \<and> (of_char c :: nat) \<le> 57) \<or>
     c = CHR ''_'' \<or> c = CHR ''-'' \<or> c = CHR ''.'' \<or> c = CHR '' ''"

text \<open>The rows a call returned; a call that panicked returned none.\<close>

definition returned_rows :: "(row list \<times> err) outcome \<Rightarrow> row list" where
  "returned_rows r = (case r of Returns (rows, er) \<Rightarrow> rows | Panics p \<Rightarrow> [])"

text \<open>The maps of one decoded output with their \<open>user\<close> key set to the username.\<close>

fun tagged :: "string \<Rightarrow> gomap list \<Rightarrow> row list" where
  "tagged u [] = []"
| "tagged u (None # rows) = tagged u rows"
| "tagged u (Some m # rows) = m(''user'' \<mapsto> u) # tagged u rows"

text \<open>
  The run of the orchestrator in the specification's words: every requested username is
  invoked once, in the order of the list, each in the world that the invocation before it
  left, whatever the earlier invocations returned. The result lists each username with
  what its invocation returned.
\<close>

fun invocations ::
  "env \<Rightarrow> Table \<Rightarrow> string list \<Rightarrow> world \<Rightarrow> (string \<times> gomap list \<times> err) list \<times> world" where
  "invocations e t [] w = ([], w)"
| "invocations e t (u # us) w =
     (case ExecOsqueryLaunchctlParsed e 5 u (osqueryd t) (query t) w of
        (r, w1) \<Rightarrow> (case invocations e t us w1 of (rs, w2) \<Rightarrow> ((u, r) # rs, w2)))"

text \<open>What one invocation adds to the table: nothing when it returned an error, its rows
  tagged with its username otherwise.\<close>

fun contribution :: "string \<times> gomap list \<times> err \<Rightarrow> row list" where
  "contribution (u, rows, Some msg) = []"
| "contribution (u, rows, None) = tagged u rows"

text \<open>An invocation whose output can be tagged: it failed, or none of its rows is nil.\<close>

fun no_nil_row :: "string \<times> gomap list \<times> err \<Rightarrow> bool" where
  "no_nil_row (u, rows, Some msg) = True"
| "no_nil_row (u, rows, None) = (None \<notin> set rows)"


section \<open>Properties\<close>

subsection \<open>The shape of one invocation and of the loop\<close>

lemma tag_rows_no_nil:
  "None \<notin> set rows \<Longrightarrow> tag_rows u rows results = Returns (results @ tagged u rows)"
  by (induction u rows results rule: tag_rows.induct) simp_all

lemma tag_rows_Returns:
  "tag_rows u rows results = Returns res \<Longrightarrow> res = results @ tagged u rows \<and> None \<notin> set rows"
  by (induction u rows results rule: tag_rows.induct) simp_all

lemma set_tagged:
  "r \<in> set (tagged u rows) \<longleftrightarrow> (\<exists>m. Some m \<in> set rows \<and> r = m(''user'' \<mapsto> u))"
  by (induction u rows rule: tagged.induct) auto

lemma generate_loop_step:
  assumes "ExecOsqueryLaunchctlParsed e 5 u (osqueryd t) (query t) w = ((rows, er), w1)"
  obtains (stop) p where "er = None" "tag_rows u rows results = Panics p"
      "generate_loop e t (u # users) results w = (Panics p, w1)"
  | (skip) "er \<noteq> None"
      "generate_loop e t (u # users) results w = generate_loop e t users results w1"
  | (go) "er = None" "None \<notin> set rows"
      "generate_loop e t (u # users) results w
         = generate_loop e t users (results @ tagged u rows) w1"
proof (cases er)
  case (Some msg)
  with assms show thesis by (intro skip) simp_all
next
  case None
  show thesis
  proof (cases "tag_rows u rows results")
    case (Panics p)
    with None assms show thesis by (intro stop [of p]) simp_all
  next
    case (Returns res)
    from tag_rows_Returns [OF this] Returns None assms show thesis
      by (intro go) simp_all
  qed
qed

lemma events_emit [simp]: "events (emit ev w) = events w @ [ev]"
  by (simp add: emit_def)

lemma fs_emit [simp]: "fs (emit ev w) = fs w"
  by (simp add: emit_def)

lemma new_events_append: "events w' = events w @ evs \<Longrightarrow> new_events w w' = evs"
  by (simp add: new_events_def)

lemma cmd_fold:
  "\<lparr>Path = ''launchctl'',
    Args = [''asuser'', uid, osqueryPath, ''--config_path'', ''/dev/null'',
            ''--disable_events'', ''--disable_database'', ''--disable_audit'',
            ''--ephemeral'', ''-S'', ''--json'', qry],
    Dir = dir, Deadline = deadline\<rparr> = launchctl_cmd uid osqueryPath qry dir deadline"
  by (simp add: launchctl_cmd_def)

lemma cmd_Dir:
  "(launchctl_cmd uid osqueryPath qry dir0 deadline)\<lparr>Dir := dir\<rparr>
     = launchctl_cmd uid osqueryPath qry dir deadline"
  by (simp add: launchctl_cmd_def)

lemma ExecOsqueryLaunchctl_shape:
  "\<exists>pa. events (snd (ExecOsqueryLaunchctl e ts u p q w))
            = events w @ path_events (ts * 1000000000) u p q pa
      \<and> fs (snd (ExecOsqueryLaunchctl e ts u p q w)) = path_fs pa (fs w)
      \<and> (path_ok pa \<longleftrightarrow> snd (fst (ExecOsqueryLaunchctl e ts u p q w)) = None)
      \<and> (\<not> path_ok pa \<longrightarrow> fst (fst (ExecOsqueryLaunchctl e ts u p q w)) = [])
      \<and> (\<forall>uid. path_uid pa = Some uid \<longrightarrow>
             user_Lookup e u (emit (WithTimeout (ts * 1000000000)) w) = Inr uid)
      \<and> (pa = MkdirFailed \<longrightarrow>
             (\<exists>msg. snd (fst (ExecOsqueryLaunchctl e ts u p q w)) = Some (''mktemp: '' @ msg)))"
proof (cases "user_Lookup e u (emit (WithTimeout (ts * 1000000000)) w)")
  case (Inl msg)
  then show ?thesis
    by (intro exI[of _ LookupFailed]) (simp add: ExecOsqueryLaunchctl_def Let_def)
next
  case (Inr uid)
  note look = this
  let ?w2 = "emit (UserLookup u) (emit (WithTimeout (ts * 1000000000)) w)"
  show ?thesis
  proof (cases "os_MkdirTemp e [] ''osq-launchctl'' ?w2")
    case (Inl msg)
    with look show ?thesis
      by (intro exI[of _ MkdirFailed])
         (simp add: ExecOsqueryLaunchctl_def MkdirTemp_call_def Let_def)
  next
    case (Inr d)
    note mk = this
    let ?w3 = "emit (MkdirTemp [] ''osq-launchctl'' (Some d)) (?w2\<lparr>fs := (fs ?w2)(d \<mapsto> mode 7 0 0)\<rparr>)"
    show ?thesis
    proof (cases "os_Chmod e d (mode 7 5 5) ?w3")
      case (Some msg)
      with look mk show ?thesis
        by (intro exI[of _ "ChmodFailed d"])
           (simp add: ExecOsqueryLaunchctl_def MkdirTemp_call_def Chmod_call_def
              RemoveAll_call_def Let_def)
    next
      case None
      note ch = this
      let ?w4 = "emit (Chmod d (mode 7 5 5)) (?w3\<lparr>fs := (fs ?w3)(d \<mapsto> mode 7 5 5)\<rparr>)"
      show ?thesis
      proof (cases "cmd_Run e (launchctl_cmd uid p q d (ts * 1000000000)) ?w4")
        case (Inl a)
        with look mk ch show ?thesis
          by (intro exI[of _ "RunFailed d uid"])
             (simp add: ExecOsqueryLaunchctl_def MkdirTemp_call_def Chmod_call_def
                RemoveAll_call_def cmd_fold cmd_Dir Let_def split: prod.splits)
      next
        case (Inr stdout)
        with look mk ch show ?thesis
          by (intro exI[of _ "Ran d uid"])
             (simp add: ExecOsqueryLaunchctl_def MkdirTemp_call_def Chmod_call_def
                RemoveAll_call_def cmd_fold cmd_Dir Let_def)
      qed
    qed
  qed
qed

lemma Parsed_shape:
  "\<exists>pa lg. events (snd (ExecOsqueryLaunchctlParsed e ts u p q w))
            = events w @ path_events (ts * 1000000000) u p q pa @ lg
      \<and> set lg \<subseteq> {LogInfo ''error unmarshalling json''}
      \<and> fs (snd (ExecOsqueryLaunchctlParsed e ts u p q w)) = path_fs pa (fs w)
      \<and> (snd (fst (ExecOsqueryLaunchctlParsed e ts u p q w)) = None \<longrightarrow> path_ok pa)
      \<and> (\<forall>uid. path_uid pa = Some uid \<longrightarrow> (\<exists>wl. user_Lookup e u wl = Inr uid))
      \<and> (pa = MkdirFailed \<longrightarrow>
             (\<exists>msg. fst (ExecOsqueryLaunchctlParsed e ts u p q w) = ([], Some (''mktemp: '' @ msg))))
      \<and> (\<not> path_ok pa \<longrightarrow> lg = [])"
proof -
  obtain pa where pa:
    "events (snd (ExecOsqueryLaunchctl e ts u p q w))
       = events w @ path_events (ts * 1000000000) u p q pa"
    "fs (snd (ExecOsqueryLaunchctl e ts u p q w)) = path_fs pa (fs w)"
    "path_ok pa \<longleftrightarrow> snd (fst (ExecOsqueryLaunchctl e ts u p q w)) = None"
    "\<forall>uid. path_uid pa = Some uid \<longrightarrow>
       user_Lookup e u (emit (WithTimeout (ts * 1000000000)) w) = Inr uid"
    "pa = MkdirFailed \<longrightarrow>
       (\<exists>msg. snd (fst (ExecOsqueryLaunchctl e ts u p q w)) = Some (''mktemp: '' @ msg))"
    using ExecOsqueryLaunchctl_shape [of e ts u p q w] by (elim exE conjE) (rule that)
  obtain out er w1 where r: "ExecOsqueryLaunchctl e ts u p q w = ((out, er), w1)"
    by (metis surj_pair)
  show ?thesis
  proof (cases er)
    case (Some msg)
    with r pa show ?thesis
      by (intro exI[of _ pa] exI[of _ "[]"])
         (auto simp add: ExecOsqueryLaunchctlParsed_def)
  next
    case None
    note ok = this
    obtain rows jerr where j: "json_Unmarshal e out = (rows, jerr)"
      by (metis surj_pair)
    show ?thesis
    proof (cases jerr)
      case None
      with r ok j pa show ?thesis
        by (intro exI[of _ pa] exI[of _ "[]"])
           (auto simp add: ExecOsqueryLaunchctlParsed_def)
    next
      case (Some msg)
      with r ok j pa show ?thesis
        by (intro exI[of _ pa] exI[of _ "[LogInfo ''error unmarshalling json'']"])
           (auto simp add: ExecOsqueryLaunchctlParsed_def)
    qed
  qed
qed

lemma timeouts_append: "timeouts (xs @ ys) = timeouts xs @ timeouts ys"
  by (induction xs rule: timeouts.induct) simp_all

lemma timeouts_path_events: "timeouts (path_events D u p q pa) = [D]"
  by (cases pa) simp_all

lemma timeouts_log: "set lg \<subseteq> {LogInfo m} \<Longrightarrow> timeouts lg = []"
  by (induction lg) auto

lemma invocation_event_mono:
  "invocation_event e t users ev \<Longrightarrow> invocation_event e t (u # users) ev"
  by (auto simp add: invocation_event_def)

lemma generate_loop_events:
  "\<exists>evs k. events (snd (generate_loop e t users results w)) = events w @ evs
      \<and> timeouts evs = replicate k 5000000000
      \<and> k \<le> length users
      \<and> ((\<exists>rs. fst (generate_loop e t users results w) = Returns rs) \<longrightarrow> k = length users)
      \<and> (\<forall>ev\<in>set evs. invocation_event e t users ev)"
proof (induction users arbitrary: results w)
  case Nil
  show ?case by (intro exI[of _ "[]"] exI[of _ 0]) simp
next
  case (Cons u users)
  let ?r = "ExecOsqueryLaunchctlParsed e 5 u (osqueryd t) (query t) w"
  let ?L = "generate_loop e t (u # users) results w"
  obtain pa lg where sh:
    "events (snd ?r) = events w @ path_events (5 * 1000000000) u (osqueryd t) (query t) pa @ lg"
    "set lg \<subseteq> {LogInfo ''error unmarshalling json''}"
    "\<forall>uid. path_uid pa = Some uid \<longrightarrow> (\<exists>wl. user_Lookup e u wl = Inr uid)"
    using Parsed_shape [of e 5 u "osqueryd t" "query t" w] by (elim exE conjE) (rule that)
  obtain rows er w1 where r: "?r = ((rows, er), w1)"
    by (metis surj_pair)
  let ?pe = "path_events 5000000000 u (osqueryd t) (query t) pa"
  have w1: "events w1 = events w @ ?pe @ lg"
    using sh(1) r by simp
  have own: "invocation_event e t (u # users) ev" if "ev \<in> set (?pe @ lg)" for ev
  proof -
    from that consider "ev \<in> set ?pe" | "ev \<in> set lg" by auto
    then show ?thesis
    proof cases
      case 1
      with sh(3) show ?thesis
        unfolding invocation_event_def by (intro disjI2 bexI[of _ u] exI[of _ pa]) simp_all
    next
      case 2
      with sh(2) show ?thesis by (auto simp add: invocation_event_def)
    qed
  qed
  have tl: "timeouts (?pe @ lg) = [5000000000]"
    using timeouts_log [OF sh(2)] by (simp add: timeouts_append timeouts_path_events)
  consider (stop) p where "?L = (Panics p, w1)"
    | (cont) res' where "?L = generate_loop e t users res' w1"
    using generate_loop_step [OF r, of results users] by metis
  then show ?case
  proof cases
    case stop
    have "events (snd ?L) = events w @ (?pe @ lg)" using stop w1 by simp
    moreover have "timeouts (?pe @ lg) = replicate 1 5000000000" using tl by simp
    moreover have "(1::nat) \<le> length (u # users)" by simp
    moreover have "(\<exists>rs. fst ?L = Returns rs) \<longrightarrow> 1 = length (u # users)" using stop by simp
    moreover have "\<forall>ev\<in>set (?pe @ lg). invocation_event e t (u # users) ev"
      using own by blast
    ultimately show ?thesis by blast
  next
    case cont
    obtain evs k where evs:
      "events (snd (generate_loop e t users res' w1)) = events w1 @ evs"
      "timeouts evs = replicate k 5000000000"
      "k \<le> length users"
      "(\<exists>rs. fst (generate_loop e t users res' w1) = Returns rs) \<longrightarrow> k = length users"
      "\<forall>ev\<in>set evs. invocation_event e t users ev"
      using Cons.IH [of res' w1] by (elim exE conjE) (rule that)
    let ?evs = "?pe @ lg @ evs"
    have a: "events (snd ?L) = events w @ ?evs"
      using cont evs(1) w1 by simp
    have b: "timeouts ?evs = replicate (Suc k) 5000000000"
      using evs(2) tl by (simp add: timeouts_append)
    have c: "Suc k \<le> length (u # users)" using evs(3) by simp
    have d: "(\<exists>rs. fst ?L = Returns rs) \<longrightarrow> Suc k = length (u # users)"
      using evs(4) cont by simp
    have f: "\<forall>ev\<in>set ?evs. invocation_event e t (u # users) ev"
    proof
      fix ev assume "ev \<in> set ?evs"
      then consider "ev \<in> set (?pe @ lg)" | "ev \<in> set evs" by auto
      then show "invocation_event e t (u # users) ev"
      proof cases
        case 1
        then show ?thesis by (rule own)
      next
        case 2
        with evs(5) show ?thesis by (blast intro: invocation_event_mono)
      qed
    qed
    from a b c d f show ?thesis by blast
  qed
qed

lemma generate_loop_rows:
  "fst (generate_loop e t users results w) = Returns rs' \<Longrightarrow>
   \<exists>rs. rs' = results @ rs \<and>
     (\<forall>r\<in>set rs. \<exists>u\<in>set users. \<exists>w0 rows.
        fst (ExecOsqueryLaunchctlParsed e 5 u (osqueryd t) (query t) w0) = (rows, None) \<and>
        (\<exists>m. Some m \<in> set rows \<and> r = m(''user'' \<mapsto> u)))"
proof (induction users arbitrary: results w)
  case Nil
  then show ?case by simp
next
  case (Cons u users)
  let ?r = "ExecOsqueryLaunchctlParsed e 5 u (osqueryd t) (query t) w"
  obtain rows er w1 where r: "?r = ((rows, er), w1)"
    by (metis surj_pair)
  from r show ?case
  proof (cases rule: generate_loop_step [where results = results and users = users])
    case (stop p)
    with Cons.prems show ?thesis by simp
  next
    case skip
    with Cons.prems have "fst (generate_loop e t users results w1) = Returns rs'" by simp
    from Cons.IH [OF this] show ?thesis by (elim exE conjE) (rule exI, auto)
  next
    case go
    with Cons.prems have "fst (generate_loop e t users (results @ tagged u rows) w1) = Returns rs'"
      by simp
    from Cons.IH [OF this] obtain rs where rs:
      "rs' = (results @ tagged u rows) @ rs"
      "\<forall>r\<in>set rs. \<exists>u\<in>set users. \<exists>w0 rows.
        fst (ExecOsqueryLaunchctlParsed e 5 u (osqueryd t) (query t) w0) = (rows, None) \<and>
        (\<exists>m. Some m \<in> set rows \<and> r = m(''user'' \<mapsto> u))"
      by (elim exE conjE)
    let ?rs = "tagged u rows @ rs"
    have a: "rs' = results @ ?rs" using rs(1) by simp
    have b: "\<forall>r\<in>set ?rs. \<exists>u'\<in>set (u # users). \<exists>w0 rows.
        fst (ExecOsqueryLaunchctlParsed e 5 u' (osqueryd t) (query t) w0) = (rows, None) \<and>
        (\<exists>m. Some m \<in> set rows \<and> r = m(''user'' \<mapsto> u'))"
    proof
      fix r assume "r \<in> set ?rs"
      then consider "r \<in> set (tagged u rows)" | "r \<in> set rs" by auto
      then show "\<exists>u'\<in>set (u # users). \<exists>w0 rows.
        fst (ExecOsqueryLaunchctlParsed e 5 u' (osqueryd t) (query t) w0) = (rows, None) \<and>
        (\<exists>m. Some m \<in> set rows \<and> r = m(''user'' \<mapsto> u'))"
      proof cases
        case 1
        then obtain m where "Some m \<in> set rows" "r = m(''user'' \<mapsto> u)"
          by (auto simp add: set_tagged)
        moreover have "fst ?r = (rows, None)" using r go(1) by simp
        ultimately show ?thesis by (intro bexI[of _ u] exI[of _ w] exI[of _ rows]) auto
      next
        case 2
        with rs(2) show ?thesis by auto
      qed
    qed
    from a b show ?thesis by blast
  qed
qed

lemma generate_loop_run:
  "invocations e t users w = (invs, w') \<Longrightarrow> \<forall>x\<in>set invs. no_nil_row x \<Longrightarrow>
   generate_loop e t users results w = (Returns (results @ concat (map contribution invs)), w')"
proof (induction users arbitrary: results w invs)
  case Nil
  then show ?case by simp
next
  case (Cons u users)
  let ?r = "ExecOsqueryLaunchctlParsed e 5 u (osqueryd t) (query t) w"
  obtain rows er w1 where r: "?r = ((rows, er), w1)"
    by (metis surj_pair)
  obtain invs' w2 where tl: "invocations e t users w1 = (invs', w2)"
    by (metis surj_pair)
  from Cons.prems(1) r tl have invs: "invs = (u, rows, er) # invs'" and w': "w' = w2"
    by simp_all
  note tl = tl [folded w']
  from Cons.prems(2) invs have nn: "no_nil_row (u, rows, er)" "\<forall>x\<in>set invs'. no_nil_row x"
    by simp_all
  show ?case
  proof (cases er)
    case (Some msg)
    with r have "generate_loop e t (u # users) results w = generate_loop e t users results w1"
      by simp
    also have "\<dots> = (Returns (results @ concat (map contribution invs')), w')"
      by (rule Cons.IH [OF tl nn(2)])
    finally show ?thesis using invs Some by simp
  next
    case None
    with nn(1) have "None \<notin> set rows" by simp
    then have "tag_rows u rows results = Returns (results @ tagged u rows)"
      by (rule tag_rows_no_nil)
    with r None have "generate_loop e t (u # users) results w
        = generate_loop e t users (results @ tagged u rows) w1"
      by simp
    also have "\<dots> = (Returns ((results @ tagged u rows) @ concat (map contribution invs')), w')"
      by (rule Cons.IH [OF tl nn(2)])
    finally show ?thesis using invs None by simp
  qed
qed

lemma invocations_append:
  "invocations e t (us1 @ us2) w =
     (case invocations e t us1 w of
        (invs1, w1) \<Rightarrow> (case invocations e t us2 w1 of (invs2, w2) \<Rightarrow> (invs1 @ invs2, w2)))"
  by (induction us1 arbitrary: w) (simp_all split: prod.splits)

lemma Parsed_paths:
  obtains pa lg where
    "new_events w (snd (ExecOsqueryLaunchctlParsed e ts u p q w))
       = path_events (ts * 1000000000) u p q pa @ lg"
    "set lg \<subseteq> {LogInfo ''error unmarshalling json''}"
    "fs (snd (ExecOsqueryLaunchctlParsed e ts u p q w)) = path_fs pa (fs w)"
    "pa = MkdirFailed \<longrightarrow>
       (\<exists>msg. fst (ExecOsqueryLaunchctlParsed e ts u p q w) = ([], Some (''mktemp: '' @ msg)))"
proof -
  from Parsed_shape [of e ts u p q w] obtain pa lg where
    a: "events (snd (ExecOsqueryLaunchctlParsed e ts u p q w))
            = events w @ path_events (ts * 1000000000) u p q pa @ lg"
    and b: "set lg \<subseteq> {LogInfo ''error unmarshalling json''}"
      "fs (snd (ExecOsqueryLaunchctlParsed e ts u p q w)) = path_fs pa (fs w)"
      "pa = MkdirFailed \<longrightarrow>
       (\<exists>msg. fst (ExecOsqueryLaunchctlParsed e ts u p q w) = ([], Some (''mktemp: '' @ msg)))"
    by (elim exE conjE)
  from a have c: "new_events w (snd (ExecOsqueryLaunchctlParsed e ts u p q w))
       = path_events (ts * 1000000000) u p q pa @ lg"
    by (rule new_events_append)
  show thesis by (rule that [OF c b])
qed


lemma path_fs_None: "f d = None \<Longrightarrow> path_fs pa f d = None"
  by (cases pa) simp_all

lemma path_events_created:
  assumes "MkdirTemp parent pattern (Some d) \<in> set (path_events D u p q pa)"
  shows "path_fs pa f d = None \<and>
     (\<exists>pre post. path_events D u p q pa = pre @ MkdirTemp parent pattern (Some d) # post
                   \<and> RemoveAll d \<in> set post)"
proof (cases pa)
  case LookupFailed
  with assms show ?thesis by simp
next
  case MkdirFailed
  with assms show ?thesis by simp
next
  case (ChmodFailed d')
  with assms have eq: "parent = []" "pattern = ''osq-launchctl''" "d' = d" by auto
  show ?thesis
    unfolding ChmodFailed eq
    by simp (rule exI[of _ "[WithTimeout D, UserLookup u]"], simp)
next
  case (RunFailed d' uid)
  with assms have eq: "parent = []" "pattern = ''osq-launchctl''" "d' = d" by auto
  show ?thesis
    unfolding RunFailed eq
    by simp (rule exI[of _ "[WithTimeout D, UserLookup u]"], simp)
next
  case (Ran d' uid)
  with assms have eq: "parent = []" "pattern = ''osq-launchctl''" "d' = d" by auto
  show ?thesis
    unfolding Ran eq
    by simp (rule exI[of _ "[WithTimeout D, UserLookup u]"], simp)
qed

lemma snd_generate:
  "get_constraints e qc ''user'' allowedUsernameCharacters \<noteq> [] \<Longrightarrow>
   snd (generate e t qc w)
     = snd (generate_loop e t (get_constraints e qc ''user'' allowedUsernameCharacters) [] w)"
  by (auto simp add: generate_def Let_def split: prod.splits outcome.splits)

lemma fst_generate:
  "get_constraints e qc ''user'' allowedUsernameCharacters \<noteq> [] \<Longrightarrow>
   fst (generate e t qc w)
     = (case fst (generate_loop e t (get_constraints e qc ''user'' allowedUsernameCharacters) [] w) of
          Returns rs \<Rightarrow> Returns (rs, None) | Panics p \<Rightarrow> Panics p)"
  by (auto simp add: generate_def Let_def split: prod.splits outcome.splits)

lemma generate_events:
  obtains evs where
    "new_events w (snd (generate e t qc w)) = evs"
    "\<forall>ev\<in>set evs. invocation_event e t (get_constraints e qc ''user'' allowedUsernameCharacters) ev"
proof (cases "get_constraints e qc ''user'' allowedUsernameCharacters = []")
  case True
  then have "new_events w (snd (generate e t qc w)) = []"
    by (simp add: generate_def new_events_def)
  then show thesis by (rule that) simp
next
  case False
  let ?users = "get_constraints e qc ''user'' allowedUsernameCharacters"
  obtain evs where evs:
    "events (snd (generate_loop e t ?users [] w)) = events w @ evs"
    "\<forall>ev\<in>set evs. invocation_event e t ?users ev"
    using generate_loop_events [of e t ?users "[]" w] by (elim exE conjE) (rule that)
  have "snd (generate e t qc w) = snd (generate_loop e t ?users [] w)"
    using False by (rule snd_generate)
  then have "new_events w (snd (generate e t qc w)) = evs"
    using evs(1) by (simp add: new_events_append)
  then show thesis using evs(2) by (rule that)
qed

lemma generate_loop_fs:
  "\<exists>evs. events (snd (generate_loop e t users results w)) = events w @ evs \<and>
     (\<forall>d. fs w d = None \<or> (\<exists>pp pt. MkdirTemp pp pt (Some d) \<in> set evs) \<longrightarrow>
          fs (snd (generate_loop e t users results w)) d = None)"
proof (induction users arbitrary: results w)
  case Nil
  show ?case by simp
next
  case (Cons u users)
  let ?r = "ExecOsqueryLaunchctlParsed e 5 u (osqueryd t) (query t) w"
  let ?L = "generate_loop e t (u # users) results w"
  obtain pa lg where sh:
    "new_events w (snd ?r) = path_events (5 * 1000000000) u (osqueryd t) (query t) pa @ lg"
    "set lg \<subseteq> {LogInfo ''error unmarshalling json''}"
    "fs (snd ?r) = path_fs pa (fs w)"
    using Parsed_paths [of w e 5 u "osqueryd t" "query t"] by metis
  obtain pa' lg' where "events (snd ?r)
      = events w @ path_events (5 * 1000000000) u (osqueryd t) (query t) pa' @ lg'"
    using Parsed_shape [of e 5 u "osqueryd t" "query t" w] by (elim exE conjE)
  with sh(1) have ev1: "events (snd ?r)
      = events w @ path_events (5 * 1000000000) u (osqueryd t) (query t) pa @ lg"
    by (simp add: new_events_def)
  obtain rows er w1 where r: "?r = ((rows, er), w1)"
    by (metis surj_pair)
  have w1: "snd ?r = w1" using r by simp
  let ?pe = "path_events (5 * 1000000000) u (osqueryd t) (query t) pa"
  have own: "fs w1 d = None"
    if "fs w d = None \<or> (\<exists>pp pt. MkdirTemp pp pt (Some d) \<in> set (?pe @ lg))" for d
  proof -
    from that consider "fs w d = None" | pp pt where "MkdirTemp pp pt (Some d) \<in> set ?pe"
      | pp pt where "MkdirTemp pp pt (Some d) \<in> set lg" by auto
    then show ?thesis
    proof cases
      case 1
      then show ?thesis using sh(3) w1 by (simp add: path_fs_None)
    next
      case 2
      from path_events_created [OF this, of "fs w"] show ?thesis using sh(3) w1 by simp
    next
      case 3
      with sh(2) show ?thesis by auto
    qed
  qed
  consider (stop) p where "?L = (Panics p, w1)"
    | (cont) res' where "?L = generate_loop e t users res' w1"
    using generate_loop_step [OF r, of results users] by metis
  then show ?case
  proof cases
    case stop
    have "events (snd ?L) = events w @ (?pe @ lg)" using stop ev1 w1 by simp
    moreover have "\<forall>d. fs w d = None \<or> (\<exists>pp pt. MkdirTemp pp pt (Some d) \<in> set (?pe @ lg)) \<longrightarrow>
          fs (snd ?L) d = None"
      using own stop by simp
    ultimately show ?thesis by blast
  next
    case cont
    obtain evs where evs:
      "events (snd (generate_loop e t users res' w1)) = events w1 @ evs"
      "\<forall>d. fs w1 d = None \<or> (\<exists>pp pt. MkdirTemp pp pt (Some d) \<in> set evs) \<longrightarrow>
            fs (snd (generate_loop e t users res' w1)) d = None"
      using Cons.IH [of res' w1] by (elim exE conjE) (rule that)
    have a: "events (snd ?L) = events w @ (?pe @ lg @ evs)"
      using cont evs(1) ev1 w1 by simp
    have b: "fs (snd ?L) d = None"
      if d: "fs w d = None \<or> (\<exists>pp pt. MkdirTemp pp pt (Some d) \<in> set (?pe @ lg @ evs))" for d
    proof -
      from d have "(fs w d = None \<or> (\<exists>pp pt. MkdirTemp pp pt (Some d) \<in> set (?pe @ lg)))
          \<or> (\<exists>pp pt. MkdirTemp pp pt (Some d) \<in> set evs)" by auto
      then have "fs w1 d = None \<or> (\<exists>pp pt. MkdirTemp pp pt (Some d) \<in> set evs)"
        using own by blast
      with evs(2) show ?thesis unfolding cont by blast
    qed
    from a b show ?thesis by blast
  qed
qed

lemma generate_workspaces_removed:
  assumes "MkdirTemp parent pattern (Some d) \<in> set (new_events w (snd (generate e t qc w)))"
  shows "fs (snd (generate e t qc w)) d = None"
proof (cases "get_constraints e qc ''user'' allowedUsernameCharacters = []")
  case True
  with assms show ?thesis by (simp add: generate_def new_events_def)
next
  case False
  let ?users = "get_constraints e qc ''user'' allowedUsernameCharacters"
  obtain evs where evs:
    "events (snd (generate_loop e t ?users [] w)) = events w @ evs"
    "\<forall>d. fs w d = None \<or> (\<exists>pp pt. MkdirTemp pp pt (Some d) \<in> set evs) \<longrightarrow>
          fs (snd (generate_loop e t ?users [] w)) d = None"
    using generate_loop_fs [of e t ?users "[]" w] by (elim exE conjE) (rule that)
  have eq: "snd (generate e t qc w) = snd (generate_loop e t ?users [] w)"
    using False by (rule snd_generate)
  then have "new_events w (snd (generate e t qc w)) = evs"
    using evs(1) by (simp add: new_events_append)
  with assms evs(2) show ?thesis unfolding eq by blast
qed

lemma invocation_removes_workspace:
  "MkdirTemp parent pattern (Some d)
      \<in> set (new_events w (snd (ExecOsqueryLaunchctlParsed e ts u p q w))) \<Longrightarrow>
   fs (snd (ExecOsqueryLaunchctlParsed e ts u p q w)) d = None \<and>
   (\<exists>pre post. new_events w (snd (ExecOsqueryLaunchctlParsed e ts u p q w))
                   = pre @ MkdirTemp parent pattern (Some d) # post
               \<and> RemoveAll d \<in> set post)"
proof -
  let ?w' = "snd (ExecOsqueryLaunchctlParsed e ts u p q w)"
  assume mk: "MkdirTemp parent pattern (Some d) \<in> set (new_events w ?w')"
  obtain pa lg where sh:
    "new_events w ?w' = path_events (ts * 1000000000) u p q pa @ lg"
    "set lg \<subseteq> {LogInfo ''error unmarshalling json''}"
    "fs ?w' = path_fs pa (fs w)"
    using Parsed_paths [of w e ts u p q] by metis
  from mk sh(1,2) have "MkdirTemp parent pattern (Some d)
      \<in> set (path_events (ts * 1000000000) u p q pa)" by auto
  from path_events_created [OF this, of "fs w"] obtain pre post where
    gone: "path_fs pa (fs w) d = None"
    and split: "path_events (ts * 1000000000) u p q pa = pre @ MkdirTemp parent pattern (Some d) # post"
    and rm: "RemoveAll d \<in> set post"
    by blast
  have "new_events w ?w' = pre @ MkdirTemp parent pattern (Some d) # (post @ lg)"
    using sh(1) split by simp
  moreover have "RemoveAll d \<in> set (post @ lg)" using rm by simp
  ultimately show ?thesis using gone sh(3) by metis
qed

lemma allowlist_exact: "c \<in> set allowedUsernameCharacters \<longleftrightarrow> allowed_by_spec c"
proof (cases c)
  case (Char b0 b1 b2 b3 b4 b5 b6 b7)
  show ?thesis
    unfolding Char allowedUsernameCharacters_def allowed_by_spec_def
    by (cases b0; cases b1; cases b2; cases b3; cases b4; cases b5; cases b6; cases b7; simp)
qed

lemma GetConstraints_filtered:
  assumes "v \<in> set (GetConstraints qc col allowedUsernameCharacters)"
  shows "list_all allowed_by_spec v \<and>
         (\<exists>q. qc col = Some q \<and> v \<in> Expression ` set (Constraints q))"
proof (cases "qc col")
  case None
  with assms show ?thesis by (simp add: GetConstraints_def)
next
  case (Some q)
  with assms have "list_all (\<lambda>c. c \<in> set allowedUsernameCharacters) v"
    and "v \<in> Expression ` set (Constraints q)"
    by (auto simp add: GetConstraints_def)
  with Some show ?thesis by (simp add: allowlist_exact)
qed


lemma Parsed_mkdir_failed:
  assumes "MkdirTemp parent pattern None
      \<in> set (new_events w (snd (ExecOsqueryLaunchctlParsed e ts u p q w)))"
  shows "new_events w (snd (ExecOsqueryLaunchctlParsed e ts u p q w))
           = [WithTimeout (ts * 1000000000), UserLookup u,
              MkdirTemp [] ''osq-launchctl'' None, Cancel]
         \<and> (\<exists>msg. fst (ExecOsqueryLaunchctlParsed e ts u p q w)
                     = ([], Some (''mktemp: '' @ msg)))"
proof -
  let ?r = "ExecOsqueryLaunchctlParsed e ts u p q w"
  from Parsed_shape [of e ts u p q w] obtain pa lg where
    a: "events (snd ?r) = events w @ path_events (ts * 1000000000) u p q pa @ lg"
    and b: "set lg \<subseteq> {LogInfo ''error unmarshalling json''}"
    and c: "pa = MkdirFailed \<longrightarrow> (\<exists>msg. fst ?r = ([], Some (''mktemp: '' @ msg)))"
    and d: "\<not> path_ok pa \<longrightarrow> lg = []"
    by (elim exE conjE)
  from a have ne: "new_events w (snd ?r) = path_events (ts * 1000000000) u p q pa @ lg"
    by (rule new_events_append)
  from assms ne b have pa: "pa = MkdirFailed"
    by (cases pa) auto
  with d have "lg = []" by simp
  with ne pa c show ?thesis by simp
qed

subsection \<open>The concrete runs\<close>

lemma demo_users [simp]:
  "GetConstraints (demo_query [''bob'', ''carol'']) ''user'' allowedUsernameCharacters = [''bob'', ''carol'']"
  by (simp add: GetConstraints_def demo_query_def user_eq_def allowedUsernameCharacters_def)

lemma demo_users2 [simp]:
  "GetConstraints (demo_query [''alice'', ''bob'']) ''user'' allowedUsernameCharacters = [''alice'', ''bob'']"
  by (simp add: GetConstraints_def demo_query_def user_eq_def allowedUsernameCharacters_def)

lemma demo_users3 [simp]:
  "GetConstraints (demo_query [''alice'']) ''user'' allowedUsernameCharacters = [''alice'']"
  by (simp add: GetConstraints_def demo_query_def user_eq_def allowedUsernameCharacters_def)

lemma demo_users4 [simp]:
  "GetConstraints (demo_query [''alice'', ''alice; rm -rf /'']) ''user'' allowedUsernameCharacters
     = [''alice'']"
  by (simp add: GetConstraints_def demo_query_def user_eq_def allowedUsernameCharacters_def)

lemma demo_users5 [simp]:
  "GetConstraints (demo_query [''bob'', ''alice'']) ''user'' allowedUsernameCharacters = [''bob'', ''alice'']"
  by (simp add: GetConstraints_def demo_query_def user_eq_def allowedUsernameCharacters_def)

lemma demo_get [simp]: "get_constraints demo_env = GetConstraints"
  by (simp add: demo_env_def)

lemma full_disk_get [simp]: "get_constraints full_disk_env = GetConstraints"
  by (simp add: full_disk_env_def)

lemma flaky_disk_get [simp]: "get_constraints flaky_disk_env = GetConstraints"
  by (simp add: flaky_disk_env_def)

lemma null_record_get [simp]: "get_constraints null_record_env = GetConstraints"
  by (simp add: null_record_env_def)

lemma demo_alice:
  "ExecOsqueryLaunchctlParsed demo_env 5 ''alice'' p q w =
     (([Some [''key'' \<mapsto> ''v'', ''user'' \<mapsto> ''root'']], None),
      w\<lparr>fs := (fs w)(''/tmp/osq-launchctl42'' := None),
        events := events w @
          [WithTimeout 5000000000, UserLookup ''alice'',
           MkdirTemp [] ''osq-launchctl'' (Some ''/tmp/osq-launchctl42''),
           Chmod ''/tmp/osq-launchctl42'' (mode 7 5 5),
           Run (launchctl_cmd ''501'' p q ''/tmp/osq-launchctl42'' 5000000000),
           RemoveAll ''/tmp/osq-launchctl42'', Cancel]\<rparr>)"
  by (simp add: ExecOsqueryLaunchctlParsed_def ExecOsqueryLaunchctl_def MkdirTemp_call_def
      Chmod_call_def RemoveAll_call_def demo_env_def Let_def emit_def launchctl_cmd_def)

lemma demo_bob:
  "ExecOsqueryLaunchctlParsed demo_env 5 ''bob'' p q w =
     (([], Some (''running osquery. Got: '' @ [CHR 0x27, CHR 0x27] @ '': signal: killed'')),
      w\<lparr>fs := (fs w)(''/tmp/osq-launchctl42'' := None),
        events := events w @
          [WithTimeout 5000000000, UserLookup ''bob'',
           MkdirTemp [] ''osq-launchctl'' (Some ''/tmp/osq-launchctl42''),
           Chmod ''/tmp/osq-launchctl42'' (mode 7 5 5),
           Run (launchctl_cmd ''502'' p q ''/tmp/osq-launchctl42'' 5000000000),
           RemoveAll ''/tmp/osq-launchctl42'', Cancel]\<rparr>)"
  by (simp add: ExecOsqueryLaunchctlParsed_def ExecOsqueryLaunchctl_def MkdirTemp_call_def
      Chmod_call_def RemoveAll_call_def demo_env_def Let_def emit_def launchctl_cmd_def)


lemma demo_generate:
  "generate demo_env demo_table (demo_query [''alice'', ''bob'']) world0 =
     (Returns ([[''key'' \<mapsto> ''v'', ''user'' \<mapsto> ''alice'']], None),
      \<lparr>fs = Map.empty,
       events =
          [WithTimeout 5000000000, UserLookup ''alice'',
           MkdirTemp [] ''osq-launchctl'' (Some ''/tmp/osq-launchctl42''),
           Chmod ''/tmp/osq-launchctl42'' (mode 7 5 5),
           Run (launchctl_cmd ''501'' (osqueryd demo_table) (query demo_table) ''/tmp/osq-launchctl42'' 5000000000),
           RemoveAll ''/tmp/osq-launchctl42'', Cancel,
           WithTimeout 5000000000, UserLookup ''bob'',
           MkdirTemp [] ''osq-launchctl'' (Some ''/tmp/osq-launchctl42''),
           Chmod ''/tmp/osq-launchctl42'' (mode 7 5 5),
           Run (launchctl_cmd ''502'' (osqueryd demo_table) (query demo_table) ''/tmp/osq-launchctl42'' 5000000000),
           RemoveAll ''/tmp/osq-launchctl42'', Cancel]\<rparr>)"
proof -
  show ?thesis
    by (simp add: generate_def demo_alice demo_bob world0_def)
qed

lemma demo_generate_injection:
  "generate demo_env demo_table (demo_query [''alice'', ''alice; rm -rf /'']) world0 =
     (Returns ([[''key'' \<mapsto> ''v'', ''user'' \<mapsto> ''alice'']], None),
      \<lparr>fs = Map.empty,
       events =
          [WithTimeout 5000000000, UserLookup ''alice'',
           MkdirTemp [] ''osq-launchctl'' (Some ''/tmp/osq-launchctl42''),
           Chmod ''/tmp/osq-launchctl42'' (mode 7 5 5),
           Run (launchctl_cmd ''501'' (osqueryd demo_table) (query demo_table) ''/tmp/osq-launchctl42'' 5000000000),
           RemoveAll ''/tmp/osq-launchctl42'', Cancel]\<rparr>)"
proof -
  show ?thesis
    by (simp add: generate_def demo_alice world0_def)
qed

lemma full_disk_alice:
  "ExecOsqueryLaunchctlParsed full_disk_env 5 ''alice'' p q w =
     (([], Some ''mktemp: no space left on device''),
      w\<lparr>events := events w @
          [WithTimeout 5000000000, UserLookup ''alice'',
           MkdirTemp [] ''osq-launchctl'' None, Cancel]\<rparr>)"
  by (simp add: ExecOsqueryLaunchctlParsed_def ExecOsqueryLaunchctl_def MkdirTemp_call_def
      full_disk_env_def demo_env_def Let_def emit_def)


lemma partial_alice_raw:
  "ExecOsqueryLaunchctl partial_decoder_env 5 ''alice'' p q w =
     ((demo_stdout, None),
      w\<lparr>fs := (fs w)(''/tmp/osq-launchctl42'' := None),
        events := events w @
          [WithTimeout 5000000000, UserLookup ''alice'',
           MkdirTemp [] ''osq-launchctl'' (Some ''/tmp/osq-launchctl42''),
           Chmod ''/tmp/osq-launchctl42'' (mode 7 5 5),
           Run (launchctl_cmd ''501'' p q ''/tmp/osq-launchctl42'' 5000000000),
           RemoveAll ''/tmp/osq-launchctl42'', Cancel]\<rparr>)"
  by (simp add: ExecOsqueryLaunchctl_def MkdirTemp_call_def Chmod_call_def RemoveAll_call_def
      partial_decoder_env_def demo_env_def Let_def emit_def launchctl_cmd_def)

lemma flaky_bob:
  "ExecOsqueryLaunchctlParsed flaky_disk_env 5 ''bob'' p q w =
     (([], Some ''mktemp: no space left on device''),
      w\<lparr>events := events w @
          [WithTimeout 5000000000, UserLookup ''bob'',
           MkdirTemp [] ''osq-launchctl'' None, Cancel]\<rparr>)"
  by (simp add: ExecOsqueryLaunchctlParsed_def ExecOsqueryLaunchctl_def MkdirTemp_call_def
      flaky_disk_env_def demo_env_def Let_def emit_def)

lemma flaky_alice:
  "ExecOsqueryLaunchctlParsed flaky_disk_env 5 ''alice'' p q w =
     (([Some [''key'' \<mapsto> ''v'', ''user'' \<mapsto> ''root'']], None),
      w\<lparr>fs := (fs w)(''/tmp/osq-launchctl42'' := None),
        events := events w @
          [WithTimeout 5000000000, UserLookup ''alice'',
           MkdirTemp [] ''osq-launchctl'' (Some ''/tmp/osq-launchctl42''),
           Chmod ''/tmp/osq-launchctl42'' (mode 7 5 5),
           Run (launchctl_cmd ''501'' p q ''/tmp/osq-launchctl42'' 5000000000),
           RemoveAll ''/tmp/osq-launchctl42'', Cancel]\<rparr>)"
  by (simp add: ExecOsqueryLaunchctlParsed_def ExecOsqueryLaunchctl_def MkdirTemp_call_def
      Chmod_call_def RemoveAll_call_def flaky_disk_env_def demo_env_def Let_def emit_def
      launchctl_cmd_def)

lemma null_record_alice:
  "ExecOsqueryLaunchctlParsed null_record_env 5 ''alice'' p q w =
     (([None], None),
      w\<lparr>fs := (fs w)(''/tmp/osq-launchctl42'' := None),
        events := events w @
          [WithTimeout 5000000000, UserLookup ''alice'',
           MkdirTemp [] ''osq-launchctl'' (Some ''/tmp/osq-launchctl42''),
           Chmod ''/tmp/osq-launchctl42'' (mode 7 5 5),
           Run (launchctl_cmd ''501'' p q ''/tmp/osq-launchctl42'' 5000000000),
           RemoveAll ''/tmp/osq-launchctl42'', Cancel]\<rparr>)"
  by (simp add: ExecOsqueryLaunchctlParsed_def ExecOsqueryLaunchctl_def MkdirTemp_call_def
      Chmod_call_def RemoveAll_call_def null_record_env_def demo_env_def Let_def emit_def
      launchctl_cmd_def)

text \<open>A \<open>null\<close> record in the first user's output: the call panics on line 139 and the
  second user is never processed.\<close>

lemma null_record_panics:
  "generate null_record_env demo_table (demo_query [''alice'', ''bob'']) world0 =
     (Panics ''assignment to entry in nil map'',
      \<lparr>fs = Map.empty,
       events =
          [WithTimeout 5000000000, UserLookup ''alice'',
           MkdirTemp [] ''osq-launchctl'' (Some ''/tmp/osq-launchctl42''),
           Chmod ''/tmp/osq-launchctl42'' (mode 7 5 5),
           Run (launchctl_cmd ''501'' (osqueryd demo_table) (query demo_table) ''/tmp/osq-launchctl42'' 5000000000),
           RemoveAll ''/tmp/osq-launchctl42'', Cancel]\<rparr>)"
  by (simp add: generate_def null_record_alice world0_def)



subsection \<open>Statements of the specification\<close>

text \<open>
  C1. If the list of usernames extracted from the query constraints is empty, \<open>generate\<close>
  fails with an error, returns no rows, and leaves the world as it found it.
\<close>

theorem generate_requires_user:
  "get_constraints e queryContext ''user'' allowedUsernameCharacters = [] \<Longrightarrow>
   generate e t queryContext w =
     (Returns ([], Some (''The '' @ tablename t @ '' table requires a user'')), w)"
  by (simp add: generate_def)

theorem generate_requires_user_witness:
  "get_constraints demo_env Map.empty ''user'' allowedUsernameCharacters = [] \<and>
   generate demo_env demo_table Map.empty world0 =
     (Returns ([], Some ''The screenlock table requires a user''), world0)"
  using generate_requires_user [of demo_env Map.empty demo_table world0]
  by (simp add: GetConstraints_def demo_table_def)



text \<open>
  C3. Every row that \<open>generate\<close> returns has a \<open>user\<close> key, and its value is one of the
  usernames extracted from the query constraints.
\<close>

theorem generate_rows_user_member:
  "\<forall>r\<in>set (returned_rows (fst (generate e t qc w))).
     \<exists>u\<in>set (get_constraints e qc ''user'' allowedUsernameCharacters). r ''user'' = Some u"
proof (cases "get_constraints e qc ''user'' allowedUsernameCharacters = []")
  case True
  then show ?thesis by (simp add: generate_def returned_rows_def)
next
  case False
  let ?users = "get_constraints e qc ''user'' allowedUsernameCharacters"
  show ?thesis
  proof (cases "fst (generate_loop e t ?users [] w)")
    case (Panics p)
    with False show ?thesis by (simp add: fst_generate returned_rows_def)
  next
    case (Returns rs')
    from generate_loop_rows [OF this] obtain rs where rs: "rs' = [] @ rs"
      "\<forall>r\<in>set rs. \<exists>u\<in>set ?users. \<exists>w0 rows.
        fst (ExecOsqueryLaunchctlParsed e 5 u (osqueryd t) (query t) w0) = (rows, None) \<and>
        (\<exists>m. Some m \<in> set rows \<and> r = m(''user'' \<mapsto> u))"
      by (elim exE conjE)
    have "returned_rows (fst (generate e t qc w)) = rs"
      using False Returns rs(1) by (simp add: fst_generate returned_rows_def)
    moreover have "\<forall>r\<in>set rs. \<exists>u\<in>set ?users. r ''user'' = Some u"
      using rs(2) by fastforce
    ultimately show ?thesis by simp
  qed
qed

theorem generate_rows_user_member_witness:
  "[''key'' \<mapsto> ''v'', ''user'' \<mapsto> ''alice'']
     \<in> set (returned_rows (fst (generate demo_env demo_table (demo_query [''alice'', ''bob'']) world0)))
   \<and> (\<exists>u\<in>set (get_constraints demo_env (demo_query [''alice'', ''bob'']) ''user''
                  allowedUsernameCharacters).
         [''key'' \<mapsto> ''v'', ''user'' \<mapsto> ''alice''] ''user'' = Some u)"
proof -
  have mem: "[''key'' \<mapsto> ''v'', ''user'' \<mapsto> ''alice'']
     \<in> set (returned_rows (fst (generate demo_env demo_table (demo_query [''alice'', ''bob'']) world0)))"
    by (simp add: demo_generate returned_rows_def)
  from generate_rows_user_member [THEN bspec, OF mem] mem show ?thesis by blast
qed

text \<open>
  C4 (as the code has it). A failure to create the scratch workspace is a per-user error
  like any other. The invocation does nothing after the failed \<open>os.MkdirTemp\<close> but cancel
  its context (no subprocess is started) and returns a \<open>mktemp\<close> error and no rows. In a run
  of \<open>generate\<close> in which that happens to one username, the call goes on with the usernames
  after it and, provided no decoded row is the nil map, returns a nil error and the tagged
  rows of the other usernames' invocations. With a non-empty username list \<open>generate\<close> never
  returns an error. The specification's sentence that such a failure aborts the whole call
  does not hold of the code: on a machine whose disk is full, a call for one user returns no
  rows and a nil error.
\<close>

theorem workspace_failure_skips_user:
  "(MkdirTemp parent pattern None
      \<in> set (new_events w0 (snd (ExecOsqueryLaunchctlParsed e 5 u (osqueryd t) (query t) w0))) \<longrightarrow>
      new_events w0 (snd (ExecOsqueryLaunchctlParsed e 5 u (osqueryd t) (query t) w0))
        = [WithTimeout 5000000000, UserLookup u, MkdirTemp [] ''osq-launchctl'' None, Cancel] \<and>
      (\<exists>msg. fst (ExecOsqueryLaunchctlParsed e 5 u (osqueryd t) (query t) w0)
                = ([], Some (''mktemp: '' @ msg))))
   \<and> (get_constraints e qc ''user'' allowedUsernameCharacters = us1 @ u # us2 \<longrightarrow>
      invocations e t us1 w = (invs1, w1) \<longrightarrow>
      MkdirTemp parent pattern None
        \<in> set (new_events w1 (snd (ExecOsqueryLaunchctlParsed e 5 u (osqueryd t) (query t) w1))) \<longrightarrow>
      invocations e t us2 (snd (ExecOsqueryLaunchctlParsed e 5 u (osqueryd t) (query t) w1))
        = (invs2, w2) \<longrightarrow>
      (\<forall>x\<in>set (invs1 @ invs2). no_nil_row x) \<longrightarrow>
      generate e t qc w
        = (Returns (concat (map contribution invs1) @ concat (map contribution invs2), None), w2))
   \<and> (get_constraints e qc ''user'' allowedUsernameCharacters \<noteq> [] \<longrightarrow>
      (\<forall>rows er. fst (generate e t qc w) = Returns (rows, er) \<longrightarrow> er = None))"
proof (intro conjI)
  show "MkdirTemp parent pattern None
      \<in> set (new_events w0 (snd (ExecOsqueryLaunchctlParsed e 5 u (osqueryd t) (query t) w0))) \<longrightarrow>
      new_events w0 (snd (ExecOsqueryLaunchctlParsed e 5 u (osqueryd t) (query t) w0))
        = [WithTimeout 5000000000, UserLookup u, MkdirTemp [] ''osq-launchctl'' None, Cancel] \<and>
      (\<exists>msg. fst (ExecOsqueryLaunchctlParsed e 5 u (osqueryd t) (query t) w0)
                = ([], Some (''mktemp: '' @ msg)))"
    using Parsed_mkdir_failed [of parent pattern w0 e 5 u "osqueryd t" "query t"] by simp
next
  let ?users = "get_constraints e qc ''user'' allowedUsernameCharacters"
  let ?r = "ExecOsqueryLaunchctlParsed e 5 u (osqueryd t) (query t) w1"
  show "?users = us1 @ u # us2 \<longrightarrow>
      invocations e t us1 w = (invs1, w1) \<longrightarrow>
      MkdirTemp parent pattern None \<in> set (new_events w1 (snd ?r)) \<longrightarrow>
      invocations e t us2 (snd ?r) = (invs2, w2) \<longrightarrow>
      (\<forall>x\<in>set (invs1 @ invs2). no_nil_row x) \<longrightarrow>
      generate e t qc w
        = (Returns (concat (map contribution invs1) @ concat (map contribution invs2), None), w2)"
  proof (intro impI)
    assume users: "?users = us1 @ u # us2"
      and i1: "invocations e t us1 w = (invs1, w1)"
      and mk: "MkdirTemp parent pattern None \<in> set (new_events w1 (snd ?r))"
      and i2: "invocations e t us2 (snd ?r) = (invs2, w2)"
      and nn: "\<forall>x\<in>set (invs1 @ invs2). no_nil_row x"
    from Parsed_mkdir_failed [OF mk] obtain msg where
      res: "fst ?r = ([], Some (''mktemp: '' @ msg))" by blast
    then have r: "?r = (([], Some (''mktemp: '' @ msg)), snd ?r)"
      by (metis prod.collapse)
    let ?x = "(u, [], Some (''mktemp: '' @ msg))"
    have "invocations e t (u # us2) w1 = (?x # invs2, w2)"
      using r i2 by (simp split: prod.splits) (metis fst_conv snd_conv)
    with i1 have all: "invocations e t ?users w = (invs1 @ ?x # invs2, w2)"
      unfolding users by (simp add: invocations_append)
    have "\<forall>x\<in>set (invs1 @ ?x # invs2). no_nil_row x"
      using nn by simp
    from generate_loop_run [OF all this, of "[]"]
    have "generate_loop e t ?users [] w
        = (Returns (concat (map contribution invs1) @ concat (map contribution invs2)), w2)"
      by simp
    moreover have "?users \<noteq> []" using users by simp
    ultimately show "generate e t qc w
        = (Returns (concat (map contribution invs1) @ concat (map contribution invs2), None), w2)"
      by (simp add: generate_def)
  qed
next
  show "get_constraints e qc ''user'' allowedUsernameCharacters \<noteq> [] \<longrightarrow>
      (\<forall>rows er. fst (generate e t qc w) = Returns (rows, er) \<longrightarrow> er = None)"
    by (auto simp add: fst_generate split: outcome.splits)
qed

theorem workspace_failure_skips_user_witness:
  "MkdirTemp [] ''osq-launchctl'' None
      \<in> set (new_events world0 (snd (ExecOsqueryLaunchctlParsed flaky_disk_env 5 ''bob''
                 (osqueryd demo_table) (query demo_table) world0)))
   \<and> new_events world0 (snd (ExecOsqueryLaunchctlParsed flaky_disk_env 5 ''bob''
                 (osqueryd demo_table) (query demo_table) world0))
        = [WithTimeout 5000000000, UserLookup ''bob'', MkdirTemp [] ''osq-launchctl'' None, Cancel]
   \<and> (\<exists>msg. fst (ExecOsqueryLaunchctlParsed flaky_disk_env 5 ''bob''
                 (osqueryd demo_table) (query demo_table) world0)
                = ([], Some (''mktemp: '' @ msg)))
   \<and> get_constraints flaky_disk_env (demo_query [''bob'', ''alice'']) ''user''
        allowedUsernameCharacters = [] @ ''bob'' # [''alice'']
   \<and> generate flaky_disk_env demo_table (demo_query [''bob'', ''alice'']) world0
        = (Returns ([[''key'' \<mapsto> ''v'', ''user'' \<mapsto> ''alice'']], None),
           snd (invocations flaky_disk_env demo_table [''alice'']
                  (snd (ExecOsqueryLaunchctlParsed flaky_disk_env 5 ''bob''
                          (osqueryd demo_table) (query demo_table) world0))))"
proof -
  let ?rb = "ExecOsqueryLaunchctlParsed flaky_disk_env 5 ''bob''
               (osqueryd demo_table) (query demo_table) world0"
  let ?ia = "invocations flaky_disk_env demo_table [''alice''] (snd ?rb)"
  have mk: "MkdirTemp [] ''osq-launchctl'' None \<in> set (new_events world0 (snd ?rb))"
    unfolding flaky_bob by (simp add: new_events_def world0_def)
  have users: "get_constraints flaky_disk_env (demo_query [''bob'', ''alice'']) ''user''
        allowedUsernameCharacters = [] @ ''bob'' # [''alice'']" by simp
  have i1: "invocations flaky_disk_env demo_table [] world0 = ([], world0)" by simp
  have i2: "?ia = (fst ?ia, snd ?ia)" by simp
  have fa: "fst ?ia = [(''alice'', [Some [''key'' \<mapsto> ''v'', ''user'' \<mapsto> ''root'']], None)]"
    by (simp add: flaky_alice)
  have nn: "\<forall>x\<in>set ([] @ fst ?ia). no_nil_row x"
    unfolding fa by simp
  note th = workspace_failure_skips_user
      [of "[]" "''osq-launchctl''" world0 flaky_disk_env "''bob''" demo_table
          "demo_query [''bob'', ''alice'']" "[]" "[''alice'']" world0 "[]" world0
          "fst ?ia" "snd ?ia"]
  from th mk have a: "new_events world0 (snd ?rb)
        = [WithTimeout 5000000000, UserLookup ''bob'', MkdirTemp [] ''osq-launchctl'' None, Cancel]"
    and b: "\<exists>msg. fst ?rb = ([], Some (''mktemp: '' @ msg))"
    by blast+
  from th users i1 mk i2 nn
  have "generate flaky_disk_env demo_table (demo_query [''bob'', ''alice'']) world0
        = (Returns (concat (map contribution []) @ concat (map contribution (fst ?ia)), None),
           snd ?ia)"
    by blast
  then have c: "generate flaky_disk_env demo_table (demo_query [''bob'', ''alice'']) world0
        = (Returns ([[''key'' \<mapsto> ''v'', ''user'' \<mapsto> ''alice'']], None), snd ?ia)"
    unfolding fa by simp
  from mk a b users c show ?thesis by blast
qed

theorem workspace_failure_aborts_counterexample:
  "generate full_disk_env demo_table (demo_query [''alice'']) world0 =
     (Returns ([], None),
      \<lparr>fs = Map.empty,
       events = [WithTimeout 5000000000, UserLookup ''alice'',
                 MkdirTemp [] ''osq-launchctl'' None, Cancel]\<rparr>)"
  by (simp add: generate_def full_disk_alice world0_def)




text \<open>
  C6. On every exit path of an invocation on which the scratch workspace was created
  (chmod failure, a subprocess that fails or is killed at its deadline, success, and a
  decode failure afterwards), the directory is removed: \<open>os.RemoveAll\<close> is called on it
  after its creation and it is absent when the invocation returns. Hence every workspace
  created during a call of \<open>generate\<close> is absent when \<open>generate\<close> returns.
\<close>

theorem workspace_removed:
  "(MkdirTemp parent pattern (Some d)
      \<in> set (new_events w (snd (ExecOsqueryLaunchctlParsed e ts u p q w))) \<longrightarrow>
    fs (snd (ExecOsqueryLaunchctlParsed e ts u p q w)) d = None \<and>
    (\<exists>pre post. new_events w (snd (ExecOsqueryLaunchctlParsed e ts u p q w))
                   = pre @ MkdirTemp parent pattern (Some d) # post
                \<and> RemoveAll d \<in> set post))
   \<and> (MkdirTemp parent pattern (Some d) \<in> set (new_events w (snd (generate e t qc w))) \<longrightarrow>
        fs (snd (generate e t qc w)) d = None)"
proof (rule conjI)
  show "MkdirTemp parent pattern (Some d)
      \<in> set (new_events w (snd (ExecOsqueryLaunchctlParsed e ts u p q w))) \<longrightarrow>
    fs (snd (ExecOsqueryLaunchctlParsed e ts u p q w)) d = None \<and>
    (\<exists>pre post. new_events w (snd (ExecOsqueryLaunchctlParsed e ts u p q w))
                   = pre @ MkdirTemp parent pattern (Some d) # post
                \<and> RemoveAll d \<in> set post)"
    by (rule impI) (rule invocation_removes_workspace)
  show "MkdirTemp parent pattern (Some d) \<in> set (new_events w (snd (generate e t qc w))) \<longrightarrow>
        fs (snd (generate e t qc w)) d = None"
    by (rule impI) (rule generate_workspaces_removed)
qed

theorem workspace_removed_witness:
  "MkdirTemp [] ''osq-launchctl'' (Some ''/tmp/osq-launchctl42'')
      \<in> set (new_events world0 (snd (ExecOsqueryLaunchctlParsed demo_env 5 ''bob''
                (osqueryd demo_table) (query demo_table) world0)))
   \<and> fs (snd (ExecOsqueryLaunchctlParsed demo_env 5 ''bob''
                (osqueryd demo_table) (query demo_table) world0)) ''/tmp/osq-launchctl42'' = None
   \<and> (\<exists>pre post. new_events world0 (snd (ExecOsqueryLaunchctlParsed demo_env 5 ''bob''
                (osqueryd demo_table) (query demo_table) world0))
                   = pre @ MkdirTemp [] ''osq-launchctl'' (Some ''/tmp/osq-launchctl42'') # post
               \<and> RemoveAll ''/tmp/osq-launchctl42'' \<in> set post)
   \<and> MkdirTemp [] ''osq-launchctl'' (Some ''/tmp/osq-launchctl42'')
      \<in> set (new_events world0
                (snd (generate demo_env demo_table (demo_query [''alice'', ''bob'']) world0)))
   \<and> fs (snd (generate demo_env demo_table (demo_query [''alice'', ''bob'']) world0))
        ''/tmp/osq-launchctl42'' = None"
proof -
  have h1: "MkdirTemp [] ''osq-launchctl'' (Some ''/tmp/osq-launchctl42'')
      \<in> set (new_events world0 (snd (ExecOsqueryLaunchctlParsed demo_env 5 ''bob''
                (osqueryd demo_table) (query demo_table) world0)))"
    unfolding demo_bob by (simp add: new_events_def world0_def)
  have h2: "MkdirTemp [] ''osq-launchctl'' (Some ''/tmp/osq-launchctl42'')
      \<in> set (new_events world0
                (snd (generate demo_env demo_table (demo_query [''alice'', ''bob'']) world0)))"
    unfolding demo_generate by (simp add: new_events_def world0_def)
  from workspace_removed
      [of "[]" "''osq-launchctl''" "''/tmp/osq-launchctl42''" world0 demo_env 5 "''bob''"
          "osqueryd demo_table" "query demo_table" demo_table "demo_query [''alice'', ''bob'']"]
    h1 h2
  show ?thesis by blast
qed

text \<open>
  C7. Decoding is atomic. When the runner returned output without an error, either the
  decoder succeeds and \<open>ExecOsqueryLaunchctlParsed\<close> returns exactly the decoded rows and a
  nil error, or the decoder fails and it returns an \<open>unmarshalling json\<close> error and no
  rows, whatever the decoder had already stored in the destination. In every case an error
  comes with no rows.
\<close>

theorem decode_atomic:
  "(ExecOsqueryLaunchctl e ts u p q w = ((out, None), w1) \<longrightarrow>
      (snd (json_Unmarshal e out) = None \<and>
       fst (ExecOsqueryLaunchctlParsed e ts u p q w) = (fst (json_Unmarshal e out), None))
    \<or> (\<exists>msg. snd (json_Unmarshal e out) = Some msg \<and>
          fst (ExecOsqueryLaunchctlParsed e ts u p q w)
            = ([], Some (''unmarshalling json: '' @ msg))))
   \<and> (snd (fst (ExecOsqueryLaunchctlParsed e ts u p q w)) \<noteq> None \<longrightarrow>
        fst (fst (ExecOsqueryLaunchctlParsed e ts u p q w)) = [])"
proof (intro conjI impI)
  assume r: "ExecOsqueryLaunchctl e ts u p q w = ((out, None), w1)"
  obtain rows jerr where j: "json_Unmarshal e out = (rows, jerr)" by (metis surj_pair)
  show "(snd (json_Unmarshal e out) = None \<and>
       fst (ExecOsqueryLaunchctlParsed e ts u p q w) = (fst (json_Unmarshal e out), None))
    \<or> (\<exists>msg. snd (json_Unmarshal e out) = Some msg \<and>
          fst (ExecOsqueryLaunchctlParsed e ts u p q w)
            = ([], Some (''unmarshalling json: '' @ msg)))"
    using r j by (cases jerr) (simp_all add: ExecOsqueryLaunchctlParsed_def)
next
  assume "snd (fst (ExecOsqueryLaunchctlParsed e ts u p q w)) \<noteq> None"
  then show "fst (fst (ExecOsqueryLaunchctlParsed e ts u p q w)) = []"
    by (auto simp add: ExecOsqueryLaunchctlParsed_def split: prod.splits option.splits)
qed

theorem decode_atomic_witness:
  "fst (ExecOsqueryLaunchctl partial_decoder_env 5 ''alice'' ''/usr/local/bin/osqueryd''
          ''select 1'' world0) = (demo_stdout, None)
   \<and> json_Unmarshal partial_decoder_env demo_stdout
        = ([Some [''key'' \<mapsto> ''v'']], Some ''cannot unmarshal number into Go value of type string'')
   \<and> fst (ExecOsqueryLaunchctlParsed partial_decoder_env 5 ''alice'' ''/usr/local/bin/osqueryd''
          ''select 1'' world0)
        = ([], Some ''unmarshalling json: cannot unmarshal number into Go value of type string'')"
proof -
  have j: "json_Unmarshal partial_decoder_env demo_stdout
        = ([Some [''key'' \<mapsto> ''v'']], Some ''cannot unmarshal number into Go value of type string'')"
    by (simp add: partial_decoder_env_def)
  from decode_atomic [of partial_decoder_env 5 "''alice''" "''/usr/local/bin/osqueryd''"
      "''select 1''" world0 demo_stdout, unfolded partial_alice_raw] j
  show ?thesis
    by (simp add: partial_alice_raw)
qed

text \<open>
  C8. The allowlist passed to the constraint helper consists exactly of the ASCII letters,
  the digits, underscore, hyphen, period and space. With the helper behaving as the
  specification describes, a constraint value with any other character is not among the
  usernames; every username that \<open>generate\<close> hands to the runner is a value of a \<open>user\<close>
  constraint made of allowed characters only; and every subprocess is started with the
  fixed arguments, the table's own binary path and query, and the uid that the identity
  lookup returned for such a username, so no unfiltered constraint text reaches it.
\<close>

theorem constraint_text_filtered:
  assumes "get_constraints e = GetConstraints"
  shows "(\<forall>c. c \<in> set allowedUsernameCharacters \<longleftrightarrow> allowed_by_spec c)
    \<and> (\<forall>v. \<not> list_all allowed_by_spec v \<longrightarrow>
           v \<notin> set (get_constraints e qc ''user'' allowedUsernameCharacters))
    \<and> (\<forall>u. UserLookup u \<in> set (new_events w (snd (generate e t qc w))) \<longrightarrow>
           list_all allowed_by_spec u \<and>
           (\<exists>q. qc ''user'' = Some q \<and> u \<in> Expression ` set (Constraints q)))
    \<and> (\<forall>c. Run c \<in> set (new_events w (snd (generate e t qc w))) \<longrightarrow>
           (\<exists>u uid d wl. list_all allowed_by_spec u \<and> user_Lookup e u wl = Inr uid \<and>
               c = launchctl_cmd uid (osqueryd t) (query t) d 5000000000))"
proof -
  have B: "v \<notin> set (get_constraints e qc ''user'' allowedUsernameCharacters)"
    if "\<not> list_all allowed_by_spec v" for v
    using that GetConstraints_filtered [of v qc "''user''"] assms by auto
  obtain evs where evs: "new_events w (snd (generate e t qc w)) = evs"
    "\<forall>ev\<in>set evs. invocation_event e t (get_constraints e qc ''user'' allowedUsernameCharacters) ev"
    by (rule generate_events)
  have C: "list_all allowed_by_spec u \<and>
           (\<exists>q. qc ''user'' = Some q \<and> u \<in> Expression ` set (Constraints q))"
    if lk: "UserLookup u \<in> set (new_events w (snd (generate e t qc w)))" for u
  proof -
    from lk evs have "invocation_event e t (get_constraints e qc ''user'' allowedUsernameCharacters)
        (UserLookup u)" by blast
    then obtain u' pa where u': "u' \<in> set (GetConstraints qc ''user'' allowedUsernameCharacters)"
      and "UserLookup u \<in> set (path_events 5000000000 u' (osqueryd t) (query t) pa)"
      unfolding invocation_event_def assms by auto
    then have "u = u'" by (cases pa) auto
    with u' show ?thesis
      using GetConstraints_filtered [of u qc "''user''"] by simp
  qed
  have D: "\<exists>u uid d wl. list_all allowed_by_spec u \<and> user_Lookup e u wl = Inr uid \<and>
               c = launchctl_cmd uid (osqueryd t) (query t) d 5000000000"
    if run: "Run c \<in> set (new_events w (snd (generate e t qc w)))" for c
  proof -
    from run evs have "invocation_event e t (get_constraints e qc ''user'' allowedUsernameCharacters)
        (Run c)" by blast
    then obtain u pa where u: "u \<in> set (GetConstraints qc ''user'' allowedUsernameCharacters)"
      and mem: "Run c \<in> set (path_events 5000000000 u (osqueryd t) (query t) pa)"
      and uid: "\<forall>uid. path_uid pa = Some uid \<longrightarrow> (\<exists>wl. user_Lookup e u wl = Inr uid)"
      unfolding invocation_event_def assms by auto
    from mem obtain uid d where "path_uid pa = Some uid"
      "c = launchctl_cmd uid (osqueryd t) (query t) d 5000000000"
      by (cases pa) auto
    moreover with uid obtain wl where "user_Lookup e u wl = Inr uid" by blast
    moreover have "list_all allowed_by_spec u"
      using GetConstraints_filtered [OF u] by simp
    ultimately show ?thesis by blast
  qed
  from allowlist_exact B C D show ?thesis by blast
qed

theorem constraint_text_filtered_witness:
  "get_constraints demo_env = GetConstraints
   \<and> \<not> list_all allowed_by_spec ''alice; rm -rf /''
   \<and> ''alice; rm -rf /'' \<notin> set (get_constraints demo_env
          (demo_query [''alice'', ''alice; rm -rf /'']) ''user'' allowedUsernameCharacters)
   \<and> UserLookup ''alice'' \<in> set (new_events world0
          (snd (generate demo_env demo_table (demo_query [''alice'', ''alice; rm -rf /'']) world0)))
   \<and> list_all allowed_by_spec ''alice''
   \<and> Run (launchctl_cmd ''501'' (osqueryd demo_table) (query demo_table)
            ''/tmp/osq-launchctl42'' 5000000000)
       \<in> set (new_events world0
          (snd (generate demo_env demo_table (demo_query [''alice'', ''alice; rm -rf /'']) world0)))
   \<and> (\<exists>u uid d wl. list_all allowed_by_spec u \<and> user_Lookup demo_env u wl = Inr uid \<and>
          launchctl_cmd ''501'' (osqueryd demo_table) (query demo_table)
            ''/tmp/osq-launchctl42'' 5000000000
          = launchctl_cmd uid (osqueryd demo_table) (query demo_table) d 5000000000)"
proof -
  have g: "get_constraints demo_env = GetConstraints" by (simp add: demo_env_def)
  have bad: "\<not> list_all allowed_by_spec ''alice; rm -rf /''"
    by (simp add: allowed_by_spec_def)
  have lk: "UserLookup ''alice'' \<in> set (new_events world0
          (snd (generate demo_env demo_table (demo_query [''alice'', ''alice; rm -rf /'']) world0)))"
    unfolding demo_generate_injection by (simp add: new_events_def world0_def)
  have run: "Run (launchctl_cmd ''501'' (osqueryd demo_table) (query demo_table)
            ''/tmp/osq-launchctl42'' 5000000000)
       \<in> set (new_events world0
          (snd (generate demo_env demo_table (demo_query [''alice'', ''alice; rm -rf /'']) world0)))"
    unfolding demo_generate_injection by (simp add: new_events_def world0_def)
  note th = constraint_text_filtered [OF g, of "demo_query [''alice'', ''alice; rm -rf /'']"
      world0 demo_table]
  from th bad have "''alice; rm -rf /'' \<notin> set (get_constraints demo_env
          (demo_query [''alice'', ''alice; rm -rf /'']) ''user'' allowedUsernameCharacters)"
    by blast
  moreover from th lk have "list_all allowed_by_spec ''alice''" by blast
  moreover from th run have "\<exists>u uid d wl. list_all allowed_by_spec u \<and>
          user_Lookup demo_env u wl = Inr uid \<and>
          launchctl_cmd ''501'' (osqueryd demo_table) (query demo_table)
            ''/tmp/osq-launchctl42'' 5000000000
          = launchctl_cmd uid (osqueryd demo_table) (query demo_table) d 5000000000"
    by blast
  ultimately show ?thesis using g bad lk run by blast
qed

text \<open>
  C9. Whatever the arguments of \<open>TablePlugin\<close>, the generator it registers starts one
  5-second context (\<open>timeoutSeconds = 5\<close>, that is 5000000000 ns) for each username it
  processes and no other, and every subprocess it runs carries that deadline. When the
  generator returns, the usernames processed are all the extracted ones; a call that
  panics on a nil row has processed the usernames up to that one.
\<close>

theorem generate_timeout_fixed:
  "(\<exists>k\<le>length (get_constraints e qc ''user'' allowedUsernameCharacters).
      timeouts (new_events w (snd (plugin_generate (TablePlugin e tn od oq cols) qc w)))
        = replicate k 5000000000 \<and>
      ((\<exists>r. fst (plugin_generate (TablePlugin e tn od oq cols) qc w) = Returns r) \<longrightarrow>
         k = length (get_constraints e qc ''user'' allowedUsernameCharacters)))
   \<and> (\<forall>c. Run c \<in> set (new_events w (snd (plugin_generate (TablePlugin e tn od oq cols) qc w)))
         \<longrightarrow> Deadline c = 5000000000)"
proof -
  let ?t = "\<lparr>osqueryd = od, query = oq, tablename = tn\<rparr>"
  let ?users = "get_constraints e qc ''user'' allowedUsernameCharacters"
  have pg: "plugin_generate (TablePlugin e tn od oq cols) = generate e ?t"
    by (simp add: TablePlugin_def NewPlugin_def Let_def)
  show ?thesis
  proof (cases "?users = []")
    case True
    then show ?thesis by (simp add: pg generate_def new_events_def)
  next
    case False
    obtain evs k where evs:
      "events (snd (generate_loop e ?t ?users [] w)) = events w @ evs"
      "timeouts evs = replicate k 5000000000"
      "k \<le> length ?users"
      "(\<exists>rs. fst (generate_loop e ?t ?users [] w) = Returns rs) \<longrightarrow> k = length ?users"
      "\<forall>ev\<in>set evs. invocation_event e ?t ?users ev"
      using generate_loop_events [of e ?t ?users "[]" w] by (elim exE conjE) (rule that)
    have "snd (generate e ?t qc w) = snd (generate_loop e ?t ?users [] w)"
      using False by (rule snd_generate)
    then have ne: "new_events w (snd (generate e ?t qc w)) = evs"
      using evs(1) by (simp add: new_events_append)
    have ret: "k = length ?users" if "\<exists>r. fst (generate e ?t qc w) = Returns r"
    proof -
      from that False have "\<exists>rs. fst (generate_loop e ?t ?users [] w) = Returns rs"
        by (auto simp add: fst_generate split: outcome.splits)
      with evs(4) show ?thesis by blast
    qed
    have dl: "Deadline c = 5000000000" if "Run c \<in> set evs" for c
    proof -
      from evs(5) that have "invocation_event e ?t ?users (Run c)" by blast
      then obtain u pa where "Run c \<in> set (path_events 5000000000 u od oq pa)"
        by (auto simp add: invocation_event_def)
      then show ?thesis by (cases pa) (auto simp add: launchctl_cmd_def)
    qed
    have "\<exists>k\<le>length ?users. timeouts evs = replicate k 5000000000 \<and>
        ((\<exists>r. fst (generate e ?t qc w) = Returns r) \<longrightarrow> k = length ?users)"
      using evs(2,3) ret by blast
    with dl show ?thesis unfolding pg ne by blast
  qed
qed

theorem generate_timeout_fixed_witness:
  "timeouts (new_events world0 (snd (plugin_generate
       (TablePlugin demo_env ''screenlock'' ''/usr/local/bin/osqueryd'' ''select * from screenlock'' [])
       (demo_query [''alice'', ''bob'']) world0)))
     = [5000000000, 5000000000]
   \<and> Run (launchctl_cmd ''502'' ''/usr/local/bin/osqueryd'' ''select * from screenlock''
            ''/tmp/osq-launchctl42'' 5000000000)
       \<in> set (new_events world0 (snd (plugin_generate
       (TablePlugin demo_env ''screenlock'' ''/usr/local/bin/osqueryd'' ''select * from screenlock'' [])
       (demo_query [''alice'', ''bob'']) world0)))
   \<and> Deadline (launchctl_cmd ''502'' ''/usr/local/bin/osqueryd'' ''select * from screenlock''
            ''/tmp/osq-launchctl42'' 5000000000) = 5000000000"
proof -
  have pg: "plugin_generate
       (TablePlugin demo_env ''screenlock'' ''/usr/local/bin/osqueryd'' ''select * from screenlock'' [])
     = generate demo_env demo_table"
    by (simp add: TablePlugin_def NewPlugin_def Let_def demo_table_def)
  have g: "get_constraints demo_env = GetConstraints" by (simp add: demo_env_def)
  have "Run (launchctl_cmd ''502'' ''/usr/local/bin/osqueryd'' ''select * from screenlock''
            ''/tmp/osq-launchctl42'' 5000000000)
       \<in> set (new_events world0
                (snd (generate demo_env demo_table (demo_query [''alice'', ''bob'']) world0)))"
    unfolding demo_generate by (simp add: new_events_def world0_def demo_table_def)
  then have mem: "Run (launchctl_cmd ''502'' ''/usr/local/bin/osqueryd'' ''select * from screenlock''
            ''/tmp/osq-launchctl42'' 5000000000)
       \<in> set (new_events world0 (snd (plugin_generate
       (TablePlugin demo_env ''screenlock'' ''/usr/local/bin/osqueryd'' ''select * from screenlock'' [])
       (demo_query [''alice'', ''bob'']) world0)))"
    by (simp only: pg)
  have ret: "\<exists>r. fst (plugin_generate
       (TablePlugin demo_env ''screenlock'' ''/usr/local/bin/osqueryd'' ''select * from screenlock'' [])
       (demo_query [''alice'', ''bob'']) world0) = Returns r"
    unfolding pg demo_generate by simp
  from generate_timeout_fixed
      [of demo_env "demo_query [''alice'', ''bob'']" world0 "''screenlock''"
          "''/usr/local/bin/osqueryd''" "''select * from screenlock''" "[]"] mem ret
  show ?thesis by auto
qed

text \<open>
  C10. Every row that \<open>generate\<close> returns is a map decoded from the output of the
  invocation for some requested username, with its \<open>user\<close> key set to that username:
  whatever \<open>user\<close> value the subprocess printed is overwritten.
\<close>

theorem generate_overwrites_user:
  "\<forall>r\<in>set (returned_rows (fst (generate e t qc w))).
     \<exists>u\<in>set (get_constraints e qc ''user'' allowedUsernameCharacters). \<exists>w0 rows.
        fst (ExecOsqueryLaunchctlParsed e 5 u (osqueryd t) (query t) w0) = (rows, None) \<and>
        (\<exists>r0. Some r0 \<in> set rows \<and> r = r0(''user'' \<mapsto> u))"
proof (cases "get_constraints e qc ''user'' allowedUsernameCharacters = []")
  case True
  then show ?thesis by (simp add: generate_def returned_rows_def)
next
  case False
  let ?users = "get_constraints e qc ''user'' allowedUsernameCharacters"
  show ?thesis
  proof (cases "fst (generate_loop e t ?users [] w)")
    case (Panics p)
    with False show ?thesis by (simp add: fst_generate returned_rows_def)
  next
    case (Returns rs')
    from generate_loop_rows [OF this] obtain rs where rs: "rs' = [] @ rs"
      "\<forall>r\<in>set rs. \<exists>u\<in>set ?users. \<exists>w0 rows.
        fst (ExecOsqueryLaunchctlParsed e 5 u (osqueryd t) (query t) w0) = (rows, None) \<and>
        (\<exists>m. Some m \<in> set rows \<and> r = m(''user'' \<mapsto> u))"
      by (elim exE conjE)
    have "returned_rows (fst (generate e t qc w)) = rs"
      using False Returns rs(1) by (simp add: fst_generate returned_rows_def)
    with rs(2) show ?thesis by simp
  qed
qed

theorem generate_overwrites_user_witness:
  "[''key'' \<mapsto> ''v'', ''user'' \<mapsto> ''alice'']
     \<in> set (returned_rows (fst (generate demo_env demo_table (demo_query [''alice'', ''bob'']) world0)))
   \<and> (\<exists>u\<in>set (get_constraints demo_env (demo_query [''alice'', ''bob'']) ''user''
                  allowedUsernameCharacters). \<exists>w0 rows.
        fst (ExecOsqueryLaunchctlParsed demo_env 5 u (osqueryd demo_table) (query demo_table) w0)
          = (rows, None) \<and>
        (\<exists>r0. Some r0 \<in> set rows \<and> [''key'' \<mapsto> ''v'', ''user'' \<mapsto> ''alice''] = r0(''user'' \<mapsto> u)))
   \<and> fst (ExecOsqueryLaunchctlParsed demo_env 5 ''alice'' (osqueryd demo_table) (query demo_table) world0)
        = ([Some [''key'' \<mapsto> ''v'', ''user'' \<mapsto> ''root'']], None)"
proof -
  have mem: "[''key'' \<mapsto> ''v'', ''user'' \<mapsto> ''alice'']
     \<in> set (returned_rows (fst (generate demo_env demo_table (demo_query [''alice'', ''bob'']) world0)))"
    by (simp add: demo_generate returned_rows_def)
  have sub: "fst (ExecOsqueryLaunchctlParsed demo_env 5 ''alice'' (osqueryd demo_table) (query demo_table) world0)
        = ([Some [''key'' \<mapsto> ''v'', ''user'' \<mapsto> ''root'']], None)"
    by (simp add: demo_alice)
  from generate_overwrites_user [THEN bspec, OF mem] mem sub show ?thesis by blast
qed

end
